theory Spec2Isabelle
  imports Complex_Main
begin

section \<open>JavaScript values\<close>

text \<open>
  The values that cross the module boundaries of \<^verbatim>\<open>src/api.ts\<close> and \<^verbatim>\<open>src/index.ts\<close>:
  parsed JSON bodies, header objects, context maps. An object is an association list in
  insertion order with distinct keys. A number is the real it denotes (JSON has no NaN).
  A string is the list of the bytes of its UTF-8 encoding, which for ASCII text is the
  list of its characters.
\<close>

datatype jsval =
    JUndefined
  | JNull
  | JBool bool
  | JNum real
  | JStr string
  | JArr "jsval list"
  | JObj "(string \<times> jsval) list"

type_synonym jsobj = "(string \<times> jsval) list"

text \<open>A thrown value: an \<^verbatim>\<open>Error\<close> instance (message, stack) or any other value.\<close>

datatype thrown =
    ErrorObj string "string option"
  | NonError jsval

fun instanceofError :: "thrown \<Rightarrow> bool" where
  "instanceofError (ErrorObj m s) = True"
| "instanceofError (NonError v) = False"

text \<open>JavaScript truthiness, as used by \<^verbatim>\<open>!x\<close>, \<^verbatim>\<open>x || y\<close> and \<^verbatim>\<open>x && y\<close>.\<close>

fun truthy :: "jsval \<Rightarrow> bool" where
  "truthy JUndefined = False"
| "truthy JNull = False"
| "truthy (JBool b) = b"
| "truthy (JNum n) = (n \<noteq> 0)"
| "truthy (JStr s) = (s \<noteq> [])"
| "truthy (JArr xs) = True"
| "truthy (JObj kvs) = True"

text \<open>
  Reading a property \<^verbatim>\<open>v.k\<close>. On \<^verbatim>\<open>undefined\<close> and \<^verbatim>\<open>null\<close> the read throws a
  TypeError. The names read by the code (\<^verbatim>\<open>event\<close>, \<^verbatim>\<open>requestId\<close>, \<^verbatim>\<open>url\<close>) exist on no
  primitive wrapper and on no array, so there the read yields \<^verbatim>\<open>undefined\<close>.
\<close>

definition typeError :: "string \<Rightarrow> thrown" where
  "typeError k = ErrorObj (''Cannot read properties of null or undefined (reading '' @ k @ '')'') None"

fun get_prop :: "jsval \<Rightarrow> string \<Rightarrow> thrown + jsval" where
  "get_prop JUndefined k = Inl (typeError k)"
| "get_prop JNull k = Inl (typeError k)"
| "get_prop (JObj kvs) k = Inr (case map_of kvs k of None \<Rightarrow> JUndefined | Some v \<Rightarrow> v)"
| "get_prop v k = Inr JUndefined"

text \<open>Assigning \<^verbatim>\<open>o[k] = v\<close>: an existing key keeps its position, a new key is appended.\<close>

fun set_prop :: "string \<Rightarrow> jsval \<Rightarrow> jsobj \<Rightarrow> jsobj" where
  "set_prop k v [] = [(k, v)]"
| "set_prop k v ((k', v') # ps) =
     (if k = k' then (k, v) # ps else (k', v') # set_prop k v ps)"

text \<open>Object spread \<^verbatim>\<open>{...base, ...extra}\<close>: the later source wins on a key collision.\<close>

definition spread :: "jsobj \<Rightarrow> jsobj \<Rightarrow> jsobj" where
  "spread base extra = fold (\<lambda>(k, v). set_prop k v) extra base"

text \<open>
  The own enumerable properties copied by \<^verbatim>\<open>{...v}\<close>. The code spreads a value only after
  it has read truthy named properties from it, which only an object has.
\<close>

fun own_props :: "jsval \<Rightarrow> jsobj" where
  "own_props (JObj kvs) = kvs"
| "own_props v = []"

text \<open>\<^verbatim>\<open>a || b\<close> on optional strings: the first one that is present and non-empty.\<close>

fun str_or :: "string option \<Rightarrow> string option \<Rightarrow> string option" where
  "str_or (Some s) b = (if s \<noteq> [] then Some s else b)"
| "str_or None b = b"

section \<open>Strings\<close>

text \<open>\<^verbatim>\<open>s.split(c)\<close> for a one-character separator: never empty, \<^verbatim>\<open>"".split(",")\<close> is \<^verbatim>\<open>[""]\<close>.\<close>

fun split_on :: "char \<Rightarrow> string \<Rightarrow> string list" where
  "split_on c [] = [[]]"
| "split_on c (x # xs) =
     (if x = c then [] # split_on c xs
      else (case split_on c xs of [] \<Rightarrow> [[x]] | w # ws \<Rightarrow> (x # w) # ws))"

text \<open>\<^verbatim>\<open>s.split(",")[0]\<close>.\<close>

definition first_segment :: "string \<Rightarrow> string" where
  "first_segment s = (case split_on CHR '','' s of [] \<Rightarrow> [] | w # ws \<Rightarrow> w)"

section \<open>The process environment and the options given to pino\<close>

datatype level = Trace | Debug | Info | Warn | Error | Fatal

text \<open>
  Both modules create their pino instance with
  \<^verbatim>\<open>level: process.env.LOG_LEVEL || (isDev ? "debug" : "info")\<close>. A level option is one of
  the six level names, or \<^verbatim>\<open>"silent"\<close>; with any other name the constructor of pino throws.
  A method below the level of its instance is an empty function.
\<close>

datatype threshold = AtLeast level | Silent

fun levelValue :: "level \<Rightarrow> nat" where
  "levelValue Trace = 10"
| "levelValue Debug = 20"
| "levelValue Info = 30"
| "levelValue Warn = 40"
| "levelValue Error = 50"
| "levelValue Fatal = 60"

fun isLevelEnabled :: "threshold \<Rightarrow> level \<Rightarrow> bool" where
  "isLevelEnabled (AtLeast least) lvl = (levelValue least \<le> levelValue lvl)"
| "isLevelEnabled Silent lvl = False"

definition pinoLevel :: "string \<Rightarrow> threshold option" where
  "pinoLevel name =
     map_of [(''trace'', AtLeast Trace), (''debug'', AtLeast Debug), (''info'', AtLeast Info),
             (''warn'', AtLeast Warn), (''error'', AtLeast Error), (''fatal'', AtLeast Fatal),
             (''silent'', Silent)] name"

text \<open>
  What the process looks like at one moment: whether the global \<^verbatim>\<open>window\<close> exists, the
  variables of \<^verbatim>\<open>process.env\<close>, \<^verbatim>\<open>process.cwd()\<close>, and whether constructing pino throws
  for a reason other than its level option (the transport cannot be loaded, say).
\<close>

record runtime =
  windowDefined :: bool
  NODE_ENV :: "string option"
  LOG_LEVEL :: "string option"
  LOG_MODULE :: "string option"
  cwd :: string
  pinoThrows :: bool

text \<open>\<^verbatim>\<open>process.env.LOG_LEVEL || (isDev ? "debug" : "info")\<close>.\<close>

definition levelOption :: "runtime \<Rightarrow> bool \<Rightarrow> string" where
  "levelOption rt dev =
     (case str_or (LOG_LEVEL rt) None of
        Some name \<Rightarrow> name
      | None \<Rightarrow> if dev then ''debug'' else ''info'')"

section \<open>The ingestion endpoint (\<^verbatim>\<open>src/api.ts\<close>)\<close>

subsection \<open>The module's logger\<close>

text \<open>
  \<^verbatim>\<open>createLogger()\<close>, run once when the module is loaded: the pino instance with its level
  and, outside development, with the paths \<^verbatim>\<open>headers.authorization\<close>, \<^verbatim>\<open>headers.cookie\<close>
  and \<^verbatim>\<open>body.password\<close> to redact. \<open>None\<close>: the constructor throws, and so does the
  import of the module.
\<close>

record pino_options =
  minLevel :: threshold
  redacting :: bool


subsection \<open>Rate limiting\<close>

record rate_record =
  count :: nat
  resetTime :: int

type_synonym rate_store = "string \<Rightarrow> rate_record option"

definition windowMs :: int where
  "windowMs = 60000"

text \<open>
  \<^verbatim>\<open>checkRateLimit(ip, limit = 100)\<close>, with \<^verbatim>\<open>Date.now()\<close> passed in as \<open>now\<close> and the
  module's \<^verbatim>\<open>rateLimitStore\<close> passed in and returned.
\<close>

definition checkRateLimit :: "string \<Rightarrow> nat \<Rightarrow> int \<Rightarrow> rate_store \<Rightarrow> bool \<times> rate_store" where
  "checkRateLimit ip limit now store =
     (case store ip of
        None \<Rightarrow> (True, store(ip \<mapsto> \<lparr>count = 1, resetTime = now + windowMs\<rparr>))
      | Some record \<Rightarrow>
          if now > resetTime record
          then (True, store(ip \<mapsto> \<lparr>count = 1, resetTime = now + windowMs\<rparr>))
          else if count record \<ge> limit then (False, store)
          else (True, store(ip \<mapsto> record\<lparr>count := count record + 1\<rparr>)))"

definition defaultLimit :: nat where
  "defaultLimit = 100"

subsection \<open>Requests, responses and the module state\<close>

text \<open>
  A Pages Router request. Node lower-cases header names; \<open>remoteAddress\<close> is
  \<^verbatim>\<open>req.connection?.remoteAddress\<close>; \<open>reqBody\<close> is the already parsed \<^verbatim>\<open>req.body\<close>.
\<close>

record api_request =
  reqMethod :: string
  reqHeaders :: "(string \<times> string) list"
  remoteAddress :: "string option"
  reqBody :: jsval

text \<open>An App Router request: \<open>jsonBody\<close> is what \<^verbatim>\<open>await req.json()\<close> settles to.\<close>

record app_request =
  appHeaders :: "(string \<times> string) list"
  jsonBody :: "thrown + jsval"

record api_response =
  statusCode :: nat
  payload :: "jsval option"
  sentHeaders :: "(string \<times> string) list"

text \<open>
  One call of a level method of the module's logger that returned: the level, the object
  and the message of the call, and the data object of the record that the logger wrote
  for it, \<open>None\<close> when the level is not enabled and nothing was written.
\<close>

type_synonym log_entry = "level \<times> jsval \<times> string option \<times> jsval option"

record api_state =
  rateLimitStore :: rate_store
  logged :: "log_entry list"

text \<open>
  What the handler finds around it: the module's logger, made by \<^verbatim>\<open>createLogger()\<close> at
  load; the clock (\<^verbatim>\<open>Date.now()\<close>, and \<^verbatim>\<open>new Date().toISOString()\<close> as read by the handler
  and, later, by the logger's formatter); whether an enabled method of the logger throws
  (the logger is pino, outside this repository; \<open>None\<close> is the normal return); how pino
  censors the given paths below a value when it redacts; and the language's \<^verbatim>\<open>String(v)\<close>
  conversion.
\<close>

record api_host =
  apiLogger :: pino_options
  dateNow :: int
  isoNow :: string
  isoAtWrite :: string
  emitFault :: "level \<Rightarrow> jsval \<Rightarrow> thrown option"
  censor :: "string list \<Rightarrow> jsval \<Rightarrow> jsval"
  hostString :: "jsval \<Rightarrow> string"

definition getClientIP :: "api_request \<Rightarrow> string" where
  "getClientIP req =
     (case str_or (map_option first_segment (map_of (reqHeaders req) ''x-forwarded-for''))
             (str_or (map_of (reqHeaders req) ''x-real-ip'')
               (str_or (remoteAddress req) None)) of
        Some ip \<Rightarrow> ip
      | None \<Rightarrow> ''127.0.0.1'')"

definition getClientIP_app :: "app_request \<Rightarrow> string" where
  "getClientIP_app req =
     (case str_or (map_option first_segment (map_of (appHeaders req) ''x-forwarded-for''))
             (str_or (map_of (appHeaders req) ''x-real-ip'') None) of
        Some ip \<Rightarrow> ip
      | None \<Rightarrow> ''127.0.0.1'')"

definition corsHeaders :: "string option \<Rightarrow> (string \<times> string) list" where
  "corsHeaders origin =
     [(''Access-Control-Allow-Origin'', (case str_or origin None of Some orig \<Rightarrow> orig | None \<Rightarrow> ''*'')),
      (''Access-Control-Allow-Methods'', ''POST, OPTIONS''),
      (''Access-Control-Allow-Headers'', ''Content-Type, Authorization'')]"

definition errorBody :: "string \<Rightarrow> jsval" where
  "errorBody msg = JObj [(''error'', JStr msg)]"

definition successBody :: jsval where
  "successBody = JObj [(''success'', JBool True)]"

text \<open>
  The logger's \<^verbatim>\<open>formatters.log\<close>:
  \<^verbatim>\<open>obj => ({...obj, timestamp: new Date().toISOString(), environment: 'server'})\<close>.
\<close>

definition formatLog :: "string \<Rightarrow> jsval \<Rightarrow> jsobj" where
  "formatLog stamp obj =
     spread (own_props obj) [(''timestamp'', JStr stamp), (''environment'', JStr ''server'')]"

text \<open>
  The redaction of \<^verbatim>\<open>['headers.authorization', 'headers.cookie', 'body.password']\<close>: it
  touches what stands under the keys \<^verbatim>\<open>headers\<close> and \<^verbatim>\<open>body\<close> of the formatted object, and
  nothing else.
\<close>

definition redact :: "(string list \<Rightarrow> jsval \<Rightarrow> jsval) \<Rightarrow> jsobj \<Rightarrow> jsobj" where
  "redact cens kvs =
     map (\<lambda>(k, v). if k = ''headers'' then (k, cens [''authorization'', ''cookie''] v)
                   else if k = ''body'' then (k, cens [''password''] v)
                   else (k, v)) kvs"

text \<open>The data object of the record that the logger writes for a call with \<open>obj\<close>.\<close>

definition written :: "api_host \<Rightarrow> jsval \<Rightarrow> jsval" where
  "written h obj =
     JObj (if redacting (apiLogger h) then redact (censor h) (formatLog (isoAtWrite h) obj)
           else formatLog (isoAtWrite h) obj)"

text \<open>
  \<^verbatim>\<open>(logger as any)[level](obj, msg)\<close>: below the logger's level the method is empty and
  nothing is written; otherwise the call throws, or the formatted record is written.
\<close>

definition emit :: "api_host \<Rightarrow> level \<Rightarrow> jsval \<Rightarrow> string option \<Rightarrow> log_entry list \<Rightarrow> thrown + log_entry list" where
  "emit h lvl obj msg out =
     (if \<not> isLevelEnabled (minLevel (apiLogger h)) lvl then Inr (out @ [(lvl, obj, msg, None)])
      else (case emitFault h lvl obj of
              Some e \<Rightarrow> Inl e
            | None \<Rightarrow> Inr (out @ [(lvl, obj, msg, Some (written h obj))])))"

text \<open>\<^verbatim>\<open>!logData.event || !logData.requestId || !logData.url\<close>, reads left to right.\<close>

definition invalidStructure :: "jsval \<Rightarrow> thrown + bool" where
  "invalidStructure logData =
     (case get_prop logData ''event'' of
        Inl e \<Rightarrow> Inl e
      | Inr ev \<Rightarrow>
          if \<not> truthy ev then Inr True
          else (case get_prop logData ''requestId'' of
                  Inl e \<Rightarrow> Inl e
                | Inr rid \<Rightarrow>
                    if \<not> truthy rid then Inr True
                    else (case get_prop logData ''url'' of
                            Inl e \<Rightarrow> Inl e
                          | Inr u \<Rightarrow> Inr (\<not> truthy u))))"

definition optStr :: "jsval \<Rightarrow> string option \<Rightarrow> jsval" where
  "optStr absent s = (case s of None \<Rightarrow> absent | Some x \<Rightarrow> JStr x)"

text \<open>
  The enriched record. \<open>absent\<close> is what a missing header reads as: \<^verbatim>\<open>undefined\<close> from
  \<^verbatim>\<open>req.headers[k]\<close>, \<^verbatim>\<open>null\<close> from \<^verbatim>\<open>req.headers.get(k)\<close>.
\<close>

definition enrich :: "jsval \<Rightarrow> string \<Rightarrow> string \<Rightarrow> jsval \<Rightarrow> (string \<times> string) list \<Rightarrow> jsval" where
  "enrich logData stamp clientIP absent hdrs =
     JObj (spread (own_props logData)
       [(''serverTimestamp'', JStr stamp),
        (''clientIP'', JStr clientIP),
        (''userAgent'', optStr absent (map_of hdrs ''user-agent'')),
        (''referer'', optStr absent (map_of hdrs ''referer'')),
        (''environment'', JStr ''client'')])"

definition levelOf :: "jsval \<Rightarrow> level" where
  "levelOf logData =
     (if get_prop logData ''event'' = Inr (JStr ''request_error'') then Error else Info)"

text \<open>\<^verbatim>\<open>error instanceof Error ? error.message : String(error)\<close> and the stack.\<close>

fun errorMessage :: "(jsval \<Rightarrow> string) \<Rightarrow> thrown \<Rightarrow> string" where
  "errorMessage toStr (ErrorObj m s) = m"
| "errorMessage toStr (NonError v) = toStr v"

fun errorStack :: "thrown \<Rightarrow> string option" where
  "errorStack (ErrorObj m s) = s"
| "errorStack (NonError v) = None"

definition failureRecord :: "(jsval \<Rightarrow> string) \<Rightarrow> thrown \<Rightarrow> string \<Rightarrow> jsval" where
  "failureRecord toStr e clientIP =
     JObj [(''error'', JStr (errorMessage toStr e)),
           (''stack'', optStr JUndefined (errorStack e)),
           (''clientIP'', JStr clientIP)]"

subsection \<open>The handlers\<close>

type_synonym reply = "nat \<times> jsval"

text \<open>The body of the \<^verbatim>\<open>try\<close> block, shared by both routers once \<open>logData\<close> is known.\<close>

definition processLog ::
  "api_host \<Rightarrow> jsval \<Rightarrow> string \<Rightarrow> jsval \<Rightarrow> (string \<times> string) list \<Rightarrow> log_entry list
     \<Rightarrow> thrown + reply \<times> log_entry list" where
  "processLog h logData clientIP absent hdrs out =
     (case invalidStructure logData of
        Inl e \<Rightarrow> Inl e
      | Inr invalid \<Rightarrow>
          if invalid then Inr ((400, errorBody ''Invalid log data structure''), out)
          else (case emit h (levelOf logData)
                       (enrich logData (isoNow h) clientIP absent hdrs) None out of
                  Inl e \<Rightarrow> Inl e
                | Inr out' \<Rightarrow> Inr ((200, successBody), out')))"

text \<open>The \<^verbatim>\<open>catch\<close> block: one error record, then 500. The emitter may throw here too.\<close>

definition processFailure ::
  "api_host \<Rightarrow> thrown \<Rightarrow> string \<Rightarrow> log_entry list \<Rightarrow> thrown + reply \<times> log_entry list" where
  "processFailure h e clientIP out =
     (case emit h Error (failureRecord (hostString h) e clientIP)
             (Some ''Failed to process client log'') out of
        Inl e' \<Rightarrow> Inl e'
      | Inr out' \<Rightarrow> Inr ((500, errorBody ''Internal server error''), out'))"

definition tryCatch ::
  "api_host \<Rightarrow> thrown + jsval \<Rightarrow> string \<Rightarrow> jsval \<Rightarrow> (string \<times> string) list \<Rightarrow> log_entry list
     \<Rightarrow> thrown + reply \<times> log_entry list" where
  "tryCatch h parsed clientIP absent hdrs out =
     (case (case parsed of
              Inl e \<Rightarrow> Inl e
            | Inr logData \<Rightarrow> processLog h logData clientIP absent hdrs out) of
        Inl e \<Rightarrow> processFailure h e clientIP out
      | Inr r \<Rightarrow> Inr r)"

definition respond :: "(string \<times> string) list \<Rightarrow> api_state \<Rightarrow> thrown + reply \<times> log_entry list
    \<Rightarrow> (thrown + api_response) \<times> api_state" where
  "respond hdrs st r =
     (case r of
        Inl e \<Rightarrow> (Inl e, st)
      | Inr ((code, answer), out) \<Rightarrow>
          (Inr \<lparr>statusCode = code, payload = Some answer, sentHeaders = hdrs\<rparr>,
           st\<lparr>logged := out\<rparr>))"

text \<open>The Pages Router handler (the default export).\<close>

definition handler :: "api_host \<Rightarrow> api_request \<Rightarrow> api_state \<Rightarrow> (thrown + api_response) \<times> api_state" where
  "handler h req st =
     (let cors = corsHeaders (map_of (reqHeaders req) ''origin'') in
      if reqMethod req = ''OPTIONS''
      then (Inr \<lparr>statusCode = 200, payload = None, sentHeaders = cors\<rparr>, st)
      else if reqMethod req \<noteq> ''POST''
      then (Inr \<lparr>statusCode = 405, payload = Some (errorBody ''Method not allowed''),
                  sentHeaders = cors\<rparr>, st)
      else
        let clientIP = getClientIP req;
            (admitted, store') = checkRateLimit clientIP defaultLimit (dateNow h) (rateLimitStore st);
            st' = st\<lparr>rateLimitStore := store'\<rparr>
        in if \<not> admitted
           then (Inr \<lparr>statusCode = 429, payload = Some (errorBody ''Rate limit exceeded''),
                       sentHeaders = cors\<rparr>, st')
           else respond cors st'
                  (tryCatch h (Inr (reqBody req)) clientIP JUndefined (reqHeaders req) (logged st')))"

text \<open>The App Router handler \<^verbatim>\<open>POST\<close>.\<close>

definition POST :: "api_host \<Rightarrow> app_request \<Rightarrow> api_state \<Rightarrow> (thrown + api_response) \<times> api_state" where
  "POST h req st =
     (let cors = (''Content-Type'', ''application/json'') # corsHeaders (map_of (appHeaders req) ''origin'');
          clientIP = getClientIP_app req;
          (admitted, store') = checkRateLimit clientIP defaultLimit (dateNow h) (rateLimitStore st);
          st' = st\<lparr>rateLimitStore := store'\<rparr>
      in if \<not> admitted
         then (Inr \<lparr>statusCode = 429, payload = Some (errorBody ''Rate limit exceeded''),
                     sentHeaders = cors\<rparr>, st')
         else respond cors st'
                (tryCatch h (jsonBody req) clientIP JNull (appHeaders req) (logged st')))"

text \<open>A run of the rate limiter over successive calls \<open>(ip, now)\<close>: the decisions, in order.\<close>

fun admits :: "nat \<Rightarrow> rate_store \<Rightarrow> (string \<times> int) list \<Rightarrow> bool list" where
  "admits limit store [] = []"
| "admits limit store ((ip, now) # rs) =
     fst (checkRateLimit ip limit now store)
       # admits limit (snd (checkRateLimit ip limit now store)) rs"

text \<open>A run of the Pages Router handler over successive requests.\<close>

fun serve :: "api_state \<Rightarrow> (api_host \<times> api_request) list \<Rightarrow> (thrown + api_response) list \<times> api_state" where
  "serve st [] = ([], st)"
| "serve st ((h, req) # rs) =
     (fst (handler h req st) # fst (serve (snd (handler h req st)) rs),
      snd (serve (snd (handler h req st)) rs))"

subsection \<open>Vocabulary for the properties of the endpoint\<close>

text \<open>
  \<open>windowOpen\<close>: the address has no live window at \<open>now\<close>, so its next request starts
  one. \<open>propOf\<close>: a property read that cannot throw. \<open>isRateLimited\<close>: the answer is
  the 429 of the rate limiter. \<open>limiterKey\<close>: what the rate limiter sees of a request.
  \<open>statusOf\<close>: the status code of an answer. \<open>recordsWritten\<close>: the records that the
  logger wrote, among its calls. The sample values are the concrete inputs of the
  evaluated theorems.
\<close>

definition windowOpen :: "rate_store \<Rightarrow> string \<Rightarrow> int \<Rightarrow> bool" where
  "windowOpen store ip now = (case store ip of None \<Rightarrow> True | Some r \<Rightarrow> now > resetTime r)"

definition propOf :: "jsval \<Rightarrow> string \<Rightarrow> jsval" where
  "propOf v k = (case get_prop v k of Inl e \<Rightarrow> JUndefined | Inr x \<Rightarrow> x)"

definition isRateLimited :: "thrown + api_response \<Rightarrow> bool" where
  "isRateLimited r =
     (case r of
        Inl e \<Rightarrow> False
      | Inr resp \<Rightarrow> statusCode resp = 429 \<and> payload resp = Some (errorBody ''Rate limit exceeded''))"

definition limiterKey :: "api_host \<times> api_request \<Rightarrow> string \<times> int" where
  "limiterKey q = (getClientIP (snd q), dateNow (fst q))"



definition sampleEnvelope :: jsval where
  "sampleEnvelope =
     JObj [(''event'', JStr ''request_success''), (''requestId'', JStr ''req_1''),
           (''url'', JStr ''/x''), (''method'', JStr ''GET''), (''library'', JStr ''fetch''),
           (''environment'', JStr ''client''), (''status'', JNum 200), (''duration'', JNum 10),
           (''timestamp'', JStr ''2023-12-31T23:59:59.000Z'')]"


definition sampleRequest :: api_request where
  "sampleRequest =
     \<lparr>reqMethod = ''POST'',
      reqHeaders = [(''x-real-ip'', ''10.0.0.1''), (''user-agent'', ''Mozilla/5.0'')],
      remoteAddress = None, reqBody = sampleEnvelope\<rparr>"

definition quietEmitter :: "level \<Rightarrow> jsval \<Rightarrow> thrown option" where
  "quietEmitter lvl obj = None"

definition noString :: "jsval \<Rightarrow> string" where
  "noString v = []"

text \<open>
  A censor as pino's default one: the string \<^verbatim>\<open>"[Redacted]"\<close> in place of the value of each
  given key that is present in an object.
\<close>

definition pinoCensor :: "string list \<Rightarrow> jsval \<Rightarrow> jsval" where
  "pinoCensor ks v =
     (case v of
        JObj kvs \<Rightarrow>
          JObj (map (\<lambda>(k, x). if k \<in> set ks \<and> x \<noteq> JNull \<and> x \<noteq> JUndefined
                            then (k, JStr ''[Redacted]'') else (k, x)) kvs)
      | other \<Rightarrow> other)"

text \<open>The sample host is a production server without \<^verbatim>\<open>LOG_LEVEL\<close>.\<close>

definition sampleHost :: api_host where
  "sampleHost =
     \<lparr>apiLogger = \<lparr>minLevel = AtLeast Info, redacting = True\<rparr>,
      dateNow = 1000, isoNow = ''2024-01-01T00:00:00.000Z'',
      isoAtWrite = ''2024-01-01T00:00:00.001Z'', emitFault = quietEmitter,
      censor = pinoCensor, hostString = noString\<rparr>"




definition emptyState :: api_state where
  "emptyState = \<lparr>rateLimitStore = Map.empty, logged = []\<rparr>"

definition missingIdEnvelope :: jsval where
  "missingIdEnvelope = JObj [(''event'', JStr ''request_start''), (''url'', JStr ''/x'')]"

definition sampleAppRequest :: "jsval \<Rightarrow> app_request" where
  "sampleAppRequest v = \<lparr>appHeaders = [(''x-real-ip'', ''10.0.0.1'')], jsonBody = Inr v\<rparr>"

section \<open>The universal logger (\<^verbatim>\<open>src/index.ts\<close>)\<close>

subsection \<open>More string operations\<close>

fun startsWith :: "string \<Rightarrow> string \<Rightarrow> bool" where
  "startsWith s [] = True"
| "startsWith [] (p # ps) = False"
| "startsWith (c # cs) (p # ps) = (c = p \<and> startsWith cs ps)"

text \<open>\<^verbatim>\<open>s.includes(p)\<close>: \<open>p\<close> occurs in \<open>s\<close> as a substring.\<close>

fun includes_str :: "string \<Rightarrow> string \<Rightarrow> bool" where
  "includes_str [] p = (p = [])"
| "includes_str (c # cs) p = (startsWith (c # cs) p \<or> includes_str cs p)"

text \<open>\<^verbatim>\<open>s.replace(p, r)\<close> with a string pattern: only the first occurrence is replaced.\<close>

fun replaceFirst :: "string \<Rightarrow> string \<Rightarrow> string \<Rightarrow> string" where
  "replaceFirst [] p r = (if p = [] then r else [])"
| "replaceFirst (c # cs) p r =
     (if startsWith (c # cs) p then r @ drop (length p) (c # cs)
      else c # replaceFirst cs p r)"

text \<open>
  The white space and line terminators that \<^verbatim>\<open>trim()\<close> removes, each as the bytes of its
  UTF-8 encoding: U+0009 to U+000D, U+0020, U+00A0, U+1680, U+2000 to U+200A, U+2028,
  U+2029, U+202F, U+205F, U+3000 and U+FEFF.
\<close>

definition whiteSpace :: "string list" where
  "whiteSpace =
     [[CHR 0x09], [CHR 0x0A], [CHR 0x0B], [CHR 0x0C], [CHR 0x0D], [CHR 0x20],
      [CHR 0xC2, CHR 0xA0], [CHR 0xE1, CHR 0x9A, CHR 0x80],
      [CHR 0xE2, CHR 0x80, CHR 0x80], [CHR 0xE2, CHR 0x80, CHR 0x81],
      [CHR 0xE2, CHR 0x80, CHR 0x82], [CHR 0xE2, CHR 0x80, CHR 0x83],
      [CHR 0xE2, CHR 0x80, CHR 0x84], [CHR 0xE2, CHR 0x80, CHR 0x85],
      [CHR 0xE2, CHR 0x80, CHR 0x86], [CHR 0xE2, CHR 0x80, CHR 0x87],
      [CHR 0xE2, CHR 0x80, CHR 0x88], [CHR 0xE2, CHR 0x80, CHR 0x89],
      [CHR 0xE2, CHR 0x80, CHR 0x8A], [CHR 0xE2, CHR 0x80, CHR 0xA8],
      [CHR 0xE2, CHR 0x80, CHR 0xA9], [CHR 0xE2, CHR 0x80, CHR 0xAF],
      [CHR 0xE2, CHR 0x81, CHR 0x9F], [CHR 0xE3, CHR 0x80, CHR 0x80],
      [CHR 0xEF, CHR 0xBB, CHR 0xBF]]"

lemma startsWith_nonempty: "startsWith s p \<Longrightarrow> p \<noteq> [] \<Longrightarrow> s \<noteq> []"
  by (cases s; cases p) simp_all

text \<open>Removing from the front of \<open>s\<close>, as long as there is one, a prefix that is in \<open>ps\<close>.\<close>

function stripLeading :: "string list \<Rightarrow> string \<Rightarrow> string" where
  "stripLeading ps s =
     (case find (\<lambda>p. p \<noteq> [] \<and> startsWith s p) ps of
        None \<Rightarrow> s
      | Some p \<Rightarrow> stripLeading ps (drop (length p) s))"
  by pat_completeness auto

termination
proof (relation "measure (\<lambda>(ps, s). length s)")
  show "wf (measure (\<lambda>(ps, s). length s))" by simp
next
  fix ps :: "string list" and s p :: string
  assume "find (\<lambda>p. p \<noteq> [] \<and> startsWith s p) ps = Some p"
  then have p: "p \<noteq> []" and sp: "startsWith s p"
    by (auto simp: find_Some_iff)
  have "s \<noteq> []" using sp p by (rule startsWith_nonempty)
  then show "((ps, drop (length p) s), (ps, s)) \<in> measure (\<lambda>(ps, s). length s)"
    using p by simp
qed

declare stripLeading.simps [simp del]

text \<open>\<^verbatim>\<open>s.trim()\<close>: the white space at the front and at the end is removed.\<close>

definition trim :: "string \<Rightarrow> string" where
  "trim s = rev (stripLeading (map rev whiteSpace) (rev (stripLeading whiteSpace s)))"

subsection \<open>Emitters\<close>

text \<open>
  The four objects that stand behind the \<^verbatim>\<open>ExtendedLogger\<close> interface in this module: a
  pino instance with its level and its bound fields, the console fallback built when pino
  fails on the server, the client fallback (console in development, empty methods
  otherwise), and the object made by \<^verbatim>\<open>createSilentLogger\<close>.
\<close>

datatype emitter =
    Pino threshold jsobj
  | ServerFallback
  | ClientFallback bool
  | SilentLogger

datatype console_method = ConsoleLog | ConsoleWarn | ConsoleError | ConsoleDebug | ConsoleTrace

text \<open>
  What an emitter call leaves behind: a pino record, or a console line \<^verbatim>\<open>msg || obj\<close>. A
  pino record is given by the level, the bound fields of the instance, and the object and
  message of the call; the instance's \<^verbatim>\<open>formatters.log\<close> adds \<^verbatim>\<open>timestamp\<close> and \<^verbatim>\<open>environment\<close>
  to that object when pino writes the line.
\<close>

datatype 'p emitted =
    PinoRecord level jsobj 'p "string option"
  | ConsoleLine console_method "string + 'p"

fun consoleOf :: "level \<Rightarrow> console_method" where
  "consoleOf Info = ConsoleLog"
| "consoleOf Warn = ConsoleWarn"
| "consoleOf Error = ConsoleError"
| "consoleOf Debug = ConsoleDebug"
| "consoleOf Trace = ConsoleTrace"
| "consoleOf Fatal = ConsoleError"

definition msgOrObj :: "'p \<Rightarrow> string option \<Rightarrow> string + 'p" where
  "msgOrObj obj msg = (case str_or msg None of Some m \<Rightarrow> Inl m | None \<Rightarrow> Inr obj)"

text \<open>
  Calling the level method \<open>lvl\<close> of an emitter with \<^verbatim>\<open>(obj, msg)\<close>. A pino instance
  writes a record when \<open>lvl\<close> is enabled under its level, and nothing otherwise.
\<close>

fun logCall :: "emitter \<Rightarrow> level \<Rightarrow> 'p \<Rightarrow> string option \<Rightarrow> 'p emitted list \<Rightarrow> 'p emitted list" where
  "logCall (Pino least bound) lvl obj msg out =
     (if isLevelEnabled least lvl then out @ [PinoRecord lvl bound obj msg] else out)"
| "logCall ServerFallback lvl obj msg out = out @ [ConsoleLine (consoleOf lvl) (msgOrObj obj msg)]"
| "logCall (ClientFallback dev) lvl obj msg out =
     (if dev then out @ [ConsoleLine (consoleOf lvl) (msgOrObj obj msg)] else out)"
| "logCall SilentLogger lvl obj msg out = out"

definition createSilentLogger :: emitter where
  "createSilentLogger = SilentLogger"

text \<open>
  \<^verbatim>\<open>e.child(fields)\<close>: pino binds the fields and keeps the level; both fallbacks return the
  module's logger, which is the fallback itself; the silent logger returns a new silent
  logger.
\<close>

fun child :: "emitter \<Rightarrow> jsobj \<Rightarrow> emitter" where
  "child (Pino least bound) extra = Pino least (spread bound extra)"
| "child ServerFallback extra = ServerFallback"
| "child (ClientFallback dev) extra = ClientFallback dev"
| "child SilentLogger extra = createSilentLogger"

subsection \<open>Environment detection, at module load\<close>

text \<open>
  \<^verbatim>\<open>createSimpleLogger()\<close>: the pino instance with the level option and no bound fields;
  \<open>None\<close> when the constructor throws.
\<close>

definition createSimpleLogger :: "runtime \<Rightarrow> bool \<Rightarrow> emitter option" where
  "createSimpleLogger rt dev =
     (if pinoThrows rt then None
      else (case pinoLevel (levelOption rt dev) of
              None \<Rightarrow> None
            | Some least \<Rightarrow> Some (Pino least [])))"

text \<open>
  The module-level constants \<^verbatim>\<open>isClient\<close>, \<^verbatim>\<open>isServer\<close>, \<^verbatim>\<open>isDev\<close> and \<^verbatim>\<open>logger\<close>, as the
  top-level statements of the module compute them when it is loaded. On the server the
  logger is the pino instance, or the console fallback when \<^verbatim>\<open>createSimpleLogger()\<close> throws.
\<close>

record module_consts =
  isClient :: bool
  isServer :: bool
  isDev :: bool
  logger :: emitter

definition loadModule :: "runtime \<Rightarrow> module_consts" where
  "loadModule rt =
     (let client = windowDefined rt;
          server = \<not> client;
          dev = (NODE_ENV rt = Some ''development'')
      in \<lparr>isClient = client, isServer = server, isDev = dev,
          logger = (if server
                    then (case createSimpleLogger rt dev of
                            Some pino \<Rightarrow> pino
                          | None \<Rightarrow> ServerFallback)
                    else ClientFallback dev)\<rparr>)"

subsection \<open>The context gate\<close>

record LoggerContext =
  module :: string
  component :: "string option"
  filePath :: "string option"
  environmentOverride :: "string option"

definition optField :: "string \<Rightarrow> string option \<Rightarrow> jsobj" where
  "optField k v = (case v of None \<Rightarrow> [] | Some s \<Rightarrow> [(k, JStr s)])"

text \<open>The own properties of a context object, for \<^verbatim>\<open>{...context}\<close>.\<close>

definition contextFields :: "LoggerContext \<Rightarrow> jsobj" where
  "contextFields c =
     [(''module'', JStr (module c))] @ optField ''component'' (component c)
       @ optField ''filePath'' (filePath c) @ optField ''environment'' (environmentOverride c)"

definition shouldLogModule :: "runtime \<Rightarrow> string \<Rightarrow> bool" where
  "shouldLogModule rt m =
     (case map_option (\<lambda>s. map trim (split_on CHR '','' s)) (LOG_MODULE rt) of
        None \<Rightarrow> True
      | Some allowed \<Rightarrow> m \<in> set allowed)"

text \<open>
  The object \<^verbatim>\<open>base\<close> of \<^verbatim>\<open>createChildLogger\<close>: the context, the file path without the
  working directory, and outside development the deployment's name.
\<close>

definition childBase :: "'a module_consts_scheme \<Rightarrow> runtime \<Rightarrow> LoggerContext \<Rightarrow> jsobj" where
  "childBase M rt c =
     spread (spread (contextFields c)
       (case str_or (filePath c) None of
          None \<Rightarrow> []
        | Some fp \<Rightarrow> [(''filePath'', JStr (replaceFirst fp (cwd rt @ ''/'') []))]))
       (if \<not> isDev M
        then [(''environment'',
               JStr (case str_or (NODE_ENV rt) None of Some e \<Rightarrow> e | None \<Rightarrow> ''production''))]
        else [])"

text \<open>
  \<^verbatim>\<open>createChildLogger(context)\<close>, called when the process looks like \<open>rt\<close>, in a module
  whose constants are \<open>M\<close>.
\<close>

definition createChildLogger :: "'a module_consts_scheme \<Rightarrow> runtime \<Rightarrow> LoggerContext \<Rightarrow> emitter" where
  "createChildLogger M rt c =
     (if isClient M then logger M
      else if isDev M \<and> \<not> shouldLogModule rt (module c) then createSilentLogger
      else child (logger M) (childBase M rt c))"

subsection \<open>Timing\<close>

record duration_fields =
  err :: "thrown option"
  durationMs :: real
  label :: string

text \<open>
  \<^verbatim>\<open>+(x).toFixed(2)\<close>: \<open>x\<close> rounded to two decimals, a tie away from zero.
\<close>

definition toFixed2 :: "real \<Rightarrow> real" where
  "toFixed2 x =
     (if x < 0 then - (real_of_int (round (- x * 100)) / 100)
      else real_of_int (round (x * 100)) / 100)"

text \<open>
  The \<^verbatim>\<open>catch\<close> block of \<^verbatim>\<open>measureDuration\<close> for the caught value \<open>e\<close>: \<^verbatim>\<open>log.error\<close> is
  called, and \<open>e\<close> is thrown again unless that call throws itself.
\<close>

definition logFailure ::
  "string \<Rightarrow> (level \<Rightarrow> duration_fields \<Rightarrow> string option \<Rightarrow> 's \<Rightarrow> thrown option \<times> 's)
     \<Rightarrow> real \<Rightarrow> thrown \<Rightarrow> 's \<Rightarrow> thrown \<times> 's" where
  "logFailure lbl logMethod elapsed e s =
     (case logMethod Error \<lparr>err = Some e, durationMs = toFixed2 elapsed, label = lbl\<rparr>
             (Some (lbl @ '' failed'')) s of
        (None, s') \<Rightarrow> (e, s')
      | (Some e', s') \<Rightarrow> (e', s'))"

text \<open>
  \<^verbatim>\<open>measureDuration(label, fn, log)\<close>. The callback \<open>fn\<close> runs on the state and returns or
  throws (a rejected promise is a throw at the \<^verbatim>\<open>await\<close>); \<open>logMethod\<close> is the method
  table of \<^verbatim>\<open>log\<close>, each method returning (\<open>None\<close>) or throwing; \<open>now\<close> gives the
  readings of \<^verbatim>\<open>performance.now()\<close> in the order they are taken. The call of \<^verbatim>\<open>log.info\<close>
  stands inside the \<^verbatim>\<open>try\<close> block: when it throws, the \<^verbatim>\<open>catch\<close> block runs for what it
  threw.
\<close>

definition measureDuration ::
  "string \<Rightarrow> ('s \<Rightarrow> (thrown + 'a) \<times> 's)
     \<Rightarrow> (level \<Rightarrow> duration_fields \<Rightarrow> string option \<Rightarrow> 's \<Rightarrow> thrown option \<times> 's)
     \<Rightarrow> (nat \<Rightarrow> real) \<Rightarrow> 's \<Rightarrow> (thrown + 'a) \<times> 's" where
  "measureDuration lbl fn logMethod now s =
     (let start = now 0 in
      case fn s of
        (Inr result, s1) \<Rightarrow>
          (case logMethod Info \<lparr>err = None, durationMs = toFixed2 (now 1 - start), label = lbl\<rparr>
                  (Some (lbl @ '' completed'')) s1 of
             (None, s2) \<Rightarrow> (Inr result, s2)
           | (Some e, s2) \<Rightarrow>
               (case logFailure lbl logMethod (now 2 - start) e s2 of (e', s3) \<Rightarrow> (Inl e', s3)))
      | (Inl e, s1) \<Rightarrow>
          (case logFailure lbl logMethod (now 1 - start) e s1 of (e', s2) \<Rightarrow> (Inl e', s2)))"

text \<open>
  The method table of one of this module's emitters: its methods write as \<open>logCall\<close>
  says and return.
\<close>

definition methodsOf ::
  "emitter \<Rightarrow> level \<Rightarrow> 'p \<Rightarrow> string option \<Rightarrow> 'p emitted list \<Rightarrow> thrown option \<times> 'p emitted list" where
  "methodsOf e lvl obj msg out = (None, logCall e lvl obj msg out)"

subsection \<open>Request events and configuration\<close>

datatype event_type = request_start | request_success | request_error

fun eventName :: "event_type \<Rightarrow> string" where
  "eventName request_start = ''request_start''"
| "eventName request_success = ''request_success''"
| "eventName request_error = ''request_error''"

text \<open>
  A \<^verbatim>\<open>RequestEvent\<close> object with the properties the fetch interceptor sets; a property
  that is not set is \<open>None\<close>. The fields \<open>context\<close> and \<open>method\<close> of the source are
  \<open>eventContext\<close> and \<open>requestMethod\<close> here.
\<close>

record RequestEvent =
  event :: event_type
  requestId :: string
  timestamp :: string
  url :: string
  requestMethod :: string
  library :: string
  environment :: string
  eventContext :: "jsobj option"
  headers :: "jsval option"
  body :: "jsval option"
  status :: "int option"
  statusText :: "string option"
  duration :: "int option"
  error :: "string option"
  stack :: "string option"

text \<open>An entry of \<^verbatim>\<open>excludeUrls\<close>: a string, or a regular expression given by its test.\<close>

datatype url_pattern = Literal string | RegExp "string \<Rightarrow> bool"

text \<open>
  \<^verbatim>\<open>globalConfig\<close>. A callback returns (\<open>Inr\<close>, or \<open>None\<close> for \<^verbatim>\<open>onError\<close>) or throws.
\<close>

record LoggerConfig =
  enabled :: bool
  clientLogEndpoint :: "string option"
  excludeUrls :: "url_pattern list option"
  includeBody :: bool
  includeHeaders :: bool
  contextProvider :: "(unit \<Rightarrow> thrown + jsobj) option"
  transformLog :: "(RequestEvent \<Rightarrow> thrown + RequestEvent) option"
  onError :: "(thrown \<Rightarrow> thrown option) option"
  autoSetupInterceptors :: bool

definition defaultConfig :: LoggerConfig where
  "defaultConfig =
     \<lparr>enabled = True, clientLogEndpoint = Some ''/api/logs'', excludeUrls = Some [],
      includeBody = False, includeHeaders = False, contextProvider = None,
      transformLog = None, onError = None, autoSetupInterceptors = True\<rparr>"

fun matchesPattern :: "string \<Rightarrow> url_pattern \<Rightarrow> bool" where
  "matchesPattern u (RegExp test) = test u"
| "matchesPattern u (Literal s) = includes_str u s"

text \<open>
  \<^verbatim>\<open>shouldLog(url)\<close>. An absent endpoint is converted by \<^verbatim>\<open>includes\<close> to the string
  \<^verbatim>\<open>"undefined"\<close>; an absent \<^verbatim>\<open>excludeUrls\<close> excludes nothing.
\<close>

definition shouldLog :: "LoggerConfig \<Rightarrow> string \<Rightarrow> bool" where
  "shouldLog cfg u =
     (if \<not> enabled cfg then False
      else if includes_str u (case clientLogEndpoint cfg of None \<Rightarrow> ''undefined'' | Some e \<Rightarrow> e)
      then False
      else (case excludeUrls cfg of
              None \<Rightarrow> True
            | Some ps \<Rightarrow> \<not> list_ex (matchesPattern u) ps))"

subsection \<open>The browser side: fetch, clocks, identifiers\<close>

datatype fetch_input = UrlString string | UrlObject string | RequestObject string

fun urlOf :: "fetch_input \<Rightarrow> string" where
  "urlOf (UrlString s) = s"
| "urlOf (UrlObject s) = s"
| "urlOf (RequestObject s) = s"

record fetch_init =
  initMethod :: "string option"
  initHeaders :: "jsval option"
  initBody :: "jsval option"

record response =
  responseStatus :: int
  responseStatusText :: string
  responseData :: jsval

text \<open>
  What the module reads from the browser. Identifiers and clock readings are indexed by
  the number of readings taken so far; the network's answer to a call of the original
  \<^verbatim>\<open>fetch\<close> is indexed by the number of calls made so far.
\<close>

record client_host =
  toStr :: "jsval \<Rightarrow> string"
  jsonParse :: "string \<Rightarrow> jsval option"
  jsonStringify :: "RequestEvent \<Rightarrow> string"
  randomUUID :: "(nat \<Rightarrow> string) option"
  fallbackId :: "nat \<Rightarrow> string"
  performanceNow :: "nat \<Rightarrow> real"
  toISOString :: "nat \<Rightarrow> string"
  originalFetch :: "nat \<Rightarrow> fetch_input \<Rightarrow> fetch_init option \<Rightarrow> thrown + response"

text \<open>
  The mutable surroundings of the module on the client: the readings taken, whether
  \<^verbatim>\<open>window.fetch\<close> is the interceptor, the calls of the original \<^verbatim>\<open>fetch\<close>, the events
  handed to \<^verbatim>\<open>logEvent\<close> (in call order), what the module's logger and the console
  received, and the arguments \<^verbatim>\<open>onError\<close> was called with.
\<close>

record world =
  readings :: nat
  fetchIntercepted :: bool
  networkCalls :: "(fetch_input \<times> fetch_init option) list"
  dispatched :: "RequestEvent list"
  loggerOut :: "RequestEvent emitted list"
  consoleLog :: "(string \<times> RequestEvent) list"
  consoleError :: "(string \<times> thrown) list"
  onErrorCalls :: "thrown list"

record module_state = module_consts +
  globalConfig :: LoggerConfig
  interceptorsSetup :: bool

text \<open>The module's state: its constants, \<^verbatim>\<open>globalConfig\<close> and the one-shot flag.\<close>

definition moduleState :: "module_consts \<Rightarrow> LoggerConfig \<Rightarrow> bool \<Rightarrow> module_state" where
  "moduleState c cfg flag =
     \<lparr>isClient = isClient c, isServer = isServer c, isDev = isDev c, logger = logger c,
      globalConfig = cfg, interceptorsSetup = flag\<rparr>"


definition generateRequestId :: "client_host \<Rightarrow> nat \<Rightarrow> string" where
  "generateRequestId h n =
     (case randomUUID h of Some uuid \<Rightarrow> uuid n | None \<Rightarrow> fallbackId h n)"

text \<open>\<^verbatim>\<open>originalFetch(input, init)\<close>: the call is recorded, the network answers.\<close>

definition callOriginalFetch ::
  "client_host \<Rightarrow> fetch_input \<Rightarrow> fetch_init option \<Rightarrow> world \<Rightarrow> (thrown + response) \<times> world" where
  "callOriginalFetch h input init w =
     (originalFetch h (length (networkCalls w)) input init,
      w\<lparr>networkCalls := networkCalls w @ [(input, init)]\<rparr>)"

text \<open>\<^verbatim>\<open>init?.method || 'GET'\<close>.\<close>

definition methodOf :: "fetch_init option \<Rightarrow> string" where
  "methodOf init =
     (case str_or (case init of None \<Rightarrow> None | Some i \<Rightarrow> initMethod i) None of
        Some m \<Rightarrow> m
      | None \<Rightarrow> ''GET'')"

definition truthyOpt :: "jsval option \<Rightarrow> bool" where
  "truthyOpt v = (case v of None \<Rightarrow> False | Some x \<Rightarrow> truthy x)"

text \<open>
  The start event with its optional \<^verbatim>\<open>headers\<close> and \<^verbatim>\<open>body\<close>: a string body is parsed
  as JSON, and kept as it is when parsing throws.
\<close>

definition startEventOf ::
  "LoggerConfig \<Rightarrow> client_host \<Rightarrow> fetch_input \<Rightarrow> fetch_init option \<Rightarrow> string \<Rightarrow> string \<Rightarrow> RequestEvent" where
  "startEventOf cfg h input init rid stamp =
     (let startEvent =
            \<lparr>event = request_start, requestId = rid, timestamp = stamp, url = urlOf input,
             requestMethod = methodOf init, library = ''fetch'', environment = ''client'',
             eventContext = None, headers = None, body = None, status = None,
             statusText = None, duration = None, error = None, stack = None\<rparr>;
          hs = (case init of None \<Rightarrow> None | Some i \<Rightarrow> initHeaders i);
          b = (case init of None \<Rightarrow> None | Some i \<Rightarrow> initBody i);
          withHeaders = (if includeHeaders cfg \<and> truthyOpt hs
                         then startEvent\<lparr>headers := hs\<rparr> else startEvent)
      in if includeBody cfg \<and> truthyOpt b
         then withHeaders\<lparr>body :=
                (case b of
                   Some (JStr s) \<Rightarrow> (case jsonParse h s of Some v \<Rightarrow> Some v | None \<Rightarrow> Some (JStr s))
                 | other \<Rightarrow> other)\<rparr>
         else withHeaders)"

definition successEventOf ::
  "fetch_input \<Rightarrow> fetch_init option \<Rightarrow> string \<Rightarrow> string \<Rightarrow> response \<Rightarrow> int \<Rightarrow> RequestEvent" where
  "successEventOf input init rid stamp resp dur =
     \<lparr>event = request_success, requestId = rid, timestamp = stamp, url = urlOf input,
      requestMethod = methodOf init, library = ''fetch'', environment = ''client'',
      eventContext = None, headers = None, body = None,
      status = Some (responseStatus resp), statusText = Some (responseStatusText resp),
      duration = Some dur, error = None, stack = None\<rparr>"

definition errorEventOf ::
  "client_host \<Rightarrow> fetch_input \<Rightarrow> fetch_init option \<Rightarrow> string \<Rightarrow> string \<Rightarrow> thrown \<Rightarrow> int \<Rightarrow> RequestEvent" where
  "errorEventOf h input init rid stamp e dur =
     \<lparr>event = request_error, requestId = rid, timestamp = stamp, url = urlOf input,
      requestMethod = methodOf init, library = ''fetch'', environment = ''client'',
      eventContext = None, headers = None, body = None, status = None, statusText = None,
      duration = Some dur, error = Some (errorMessage (toStr h) e), stack = errorStack e\<rparr>"

text \<open>The request \<^verbatim>\<open>sendToServerAPI\<close> makes for an event.\<close>

definition logPostInit :: "client_host \<Rightarrow> RequestEvent \<Rightarrow> fetch_init" where
  "logPostInit h ev =
     \<lparr>initMethod = Some ''POST'',
      initHeaders = Some (JObj [(''Content-Type'', JStr ''application/json'')]),
      initBody = Some (JStr (jsonStringify h ev))\<rparr>"

text \<open>\<^verbatim>\<open>error instanceof Error ? error : new Error(String(error))\<close>.\<close>

definition asError :: "client_host \<Rightarrow> thrown \<Rightarrow> thrown" where
  "asError h e = (if instanceofError e then e else ErrorObj (errorMessage (toStr h) e) None)"

definition failureNotice :: string where
  "failureNotice = ''[nextjs-pino-logger] Failed to send log to server:''"

subsection \<open>Dispatch and the fetch interceptor\<close>

lemma startsWith_self: "startsWith s s"
  by (induction s) auto

lemma includes_self: "includes_str s s"
  by (cases s) (auto simp: startsWith_self)

lemma url_startEventOf: "url (startEventOf cfg h input init rid stamp) = urlOf input"
  by (simp add: startEventOf_def Let_def)

text \<open>
  The three asynchronous functions, run to completion one after the other: every
  \<^verbatim>\<open>await\<close> is the point where the awaited call's result and the new surroundings come
  back, a rejection is the \<open>Inl\<close> (or \<open>Some\<close>) result.

  \<^item> \<open>interceptedFetch\<close> is the function that \<^verbatim>\<open>setupFetchInterceptor\<close> stores in
    \<^verbatim>\<open>window.fetch\<close>.
  \<^item> \<open>logEvent\<close> returns, next to its outcome, the event object of its caller as the
    call leaves it (the assignment to \<^verbatim>\<open>event.context\<close> changes that object in place).
  \<^item> \<open>sendToServerAPI\<close> calls the global \<^verbatim>\<open>fetch\<close>, which is the interceptor once it is
    installed; the interceptor's own events for that call fail \<open>shouldLog\<close>, which is why
    the recursion ends.
\<close>

function interceptedFetch ::
    "module_state \<Rightarrow> client_host \<Rightarrow> fetch_input \<Rightarrow> fetch_init option \<Rightarrow> world
       \<Rightarrow> (thrown + response) \<times> world"
  and logEvent ::
    "module_state \<Rightarrow> client_host \<Rightarrow> RequestEvent \<Rightarrow> world \<Rightarrow> thrown option \<times> RequestEvent \<times> world"
  and sendToServerAPI ::
    "module_state \<Rightarrow> client_host \<Rightarrow> RequestEvent \<Rightarrow> world \<Rightarrow> thrown option \<times> world"
where
  "interceptedFetch M h input init w =
     (let rid = generateRequestId h (readings w);
          startTime = performanceNow h (readings w + 1);
          startEvent = startEventOf (globalConfig M) h input init rid (toISOString h (readings w + 2))
      in case logEvent M h startEvent (w\<lparr>readings := readings w + 3\<rparr>) of
           (Some e, ev, w1) \<Rightarrow> (Inl e, w1)
         | (None, ev, w1) \<Rightarrow>
             (case (case callOriginalFetch h input init w1 of
                      (Inl e, w2) \<Rightarrow> (Inl e, w2)
                    | (Inr resp, w2) \<Rightarrow>
                        (case logEvent M h
                                (successEventOf input init rid (toISOString h (readings w2 + 1)) resp
                                   (round (performanceNow h (readings w2) - startTime)))
                                (w2\<lparr>readings := readings w2 + 2\<rparr>) of
                           (Some e, ev, w3) \<Rightarrow> (Inl e, w3)
                         | (None, ev, w3) \<Rightarrow> (Inr resp, w3))) of
                (Inr resp, w4) \<Rightarrow> (Inr resp, w4)
              | (Inl e, w4) \<Rightarrow>
                  (case logEvent M h
                          (errorEventOf h input init rid (toISOString h (readings w4 + 1)) e
                             (round (performanceNow h (readings w4) - startTime)))
                          (w4\<lparr>readings := readings w4 + 2\<rparr>) of
                     (Some e', ev, w5) \<Rightarrow> (Inl e', w5)
                   | (None, ev, w5) \<Rightarrow> (Inl e, w5))))"
| "logEvent M h ev w0 =
     (let w = w0\<lparr>dispatched := dispatched w0 @ [ev]\<rparr> in
      if \<not> shouldLog (globalConfig M) (url ev) then (None, ev, w)
      else
        case (case contextProvider (globalConfig M) of
                None \<Rightarrow> Inr ev
              | Some provider \<Rightarrow>
                  (case provider () of
                     Inl e \<Rightarrow> Inl e
                   | Inr extra \<Rightarrow>
                       Inr (ev\<lparr>eventContext :=
                              Some (spread (case eventContext ev of None \<Rightarrow> [] | Some c \<Rightarrow> c) extra)\<rparr>))) of
          Inl e \<Rightarrow> (Some e, ev, w)
        | Inr ev1 \<Rightarrow>
            (case (case transformLog (globalConfig M) of None \<Rightarrow> Inr ev1 | Some t \<Rightarrow> t ev1) of
               Inl e \<Rightarrow> (Some e, ev1, w)
             | Inr finalEvent \<Rightarrow>
                 if isServer M
                 then (None, ev1,
                       w\<lparr>loggerOut := logCall (logger M)
                            (if event finalEvent = request_error then Error else Info)
                            finalEvent None (loggerOut w)\<rparr>)
                 else if isClient M
                 then (case sendToServerAPI M h finalEvent
                              (if isDev M
                               then w\<lparr>consoleLog := consoleLog w
                                      @ [(''['' @ eventName (event finalEvent) @ '']'', finalEvent)]\<rparr>
                               else w) of
                         (r, w') \<Rightarrow> (r, ev1, w'))
                 else (None, ev1, w)))"
| "sendToServerAPI M h ev w =
     (case (if isClient M then str_or (clientLogEndpoint (globalConfig M)) None else None) of
        None \<Rightarrow> (None, w)
      | Some endpoint \<Rightarrow>
          (case (if fetchIntercepted w
                 then interceptedFetch M h (UrlString endpoint) (Some (logPostInit h ev)) w
                 else callOriginalFetch h (UrlString endpoint) (Some (logPostInit h ev)) w) of
             (Inr resp, w1) \<Rightarrow> (None, w1)
           | (Inl e, w1) \<Rightarrow>
               (case onError (globalConfig M) of
                  Some callback \<Rightarrow>
                    (callback (asError h e), w1\<lparr>onErrorCalls := onErrorCalls w1 @ [asError h e]\<rparr>)
                | None \<Rightarrow>
                    if isDev M
                    then (None, w1\<lparr>consoleError := consoleError w1 @ [(failureNotice, e)]\<rparr>)
                    else (None, w1))))"
  by pat_completeness auto

termination
  apply (relation "measure (\<lambda>x. case x of
      Inl (M, h, input, init, w) \<Rightarrow> (if shouldLog (globalConfig M) (urlOf input) then 4 else 1)
    | Inr (Inl (M, h, ev, w)) \<Rightarrow> (if shouldLog (globalConfig M) (url ev) then 3 else 0)
    | Inr (Inr (M, h, ev, w)) \<Rightarrow> (2::nat))")
  apply (auto simp: url_startEventOf successEventOf_def errorEventOf_def shouldLog_def includes_self split: option.splits if_splits)
  done

declare interceptedFetch.simps [simp del] logEvent.simps [simp del] sendToServerAPI.simps [simp del]

subsection \<open>Sample values for the properties of the logger\<close>

definition serverRuntime :: runtime where
  "serverRuntime =
     \<lparr>windowDefined = False, NODE_ENV = Some ''production'', LOG_LEVEL = None, LOG_MODULE = None,
      cwd = ''/app'', pinoThrows = False\<rparr>"

definition devRuntime :: runtime where
  "devRuntime =
     \<lparr>windowDefined = False, NODE_ENV = Some ''development'', LOG_LEVEL = None, LOG_MODULE = Some ''a, b'',
      cwd = ''/app'', pinoThrows = False\<rparr>"

definition sampleContext :: "string \<Rightarrow> LoggerContext" where
  "sampleContext m = \<lparr>module = m, component = None, filePath = None, environmentOverride = None\<rparr>"

text \<open>
  A production server with \<^verbatim>\<open>LOG_LEVEL=silent\<close>; a clock that advances by 5 ms between
  readings; a method table whose \<^verbatim>\<open>info\<close> throws after the call has been noted.
\<close>

definition silentRuntime :: runtime where
  "silentRuntime = serverRuntime\<lparr>LOG_LEVEL := Some ''silent''\<rparr>"

definition tickingClock :: "nat \<Rightarrow> real" where
  "tickingClock n = 5 * real n"

definition brokenInfo ::
  "level \<Rightarrow> duration_fields \<Rightarrow> string option \<Rightarrow> (level \<times> thrown option) list
     \<Rightarrow> thrown option \<times> (level \<times> thrown option) list" where
  "brokenInfo lvl d msg calls =
     (if lvl = Info then Some (ErrorObj ''logger failed'' None) else None, calls @ [(lvl, err d)])"

definition returnsResult :: "'s \<Rightarrow> (thrown + string) \<times> 's" where
  "returnsResult s = (Inr ''result'', s)"

definition throwsBoom :: "'s \<Rightarrow> (thrown + string) \<times> 's" where
  "throwsBoom s = (Inl (ErrorObj ''boom'' None), s)"

text \<open>The call of the global \<^verbatim>\<open>fetch\<close> inside \<open>sendToServerAPI\<close>, intercepted or not.\<close>

definition globalFetch ::
  "module_state \<Rightarrow> client_host \<Rightarrow> fetch_input \<Rightarrow> fetch_init option \<Rightarrow> world \<Rightarrow> (thrown + response) \<times> world" where
  "globalFetch M h input init w =
     (if fetchIntercepted w then interceptedFetch M h input init w
      else callOriginalFetch h input init w)"

text \<open>A browser in development, its host functions, and the worlds and events of the evaluated theorems.\<close>

definition clientRuntime :: runtime where
  "clientRuntime =
     \<lparr>windowDefined = True, NODE_ENV = Some ''development'', LOG_LEVEL = None, LOG_MODULE = None,
      cwd = ''/'', pinoThrows = False\<rparr>"

definition noParse :: "string \<Rightarrow> jsval option" where
  "noParse s = None"

definition stringifyId :: "RequestEvent \<Rightarrow> string" where
  "stringifyId ev = requestId ev"

definition countingId :: "nat \<Rightarrow> string" where
  "countingId n = ''req_'' @ replicate n CHR ''i''"

definition steadyClock :: "nat \<Rightarrow> real" where
  "steadyClock n = real n"

definition fixedStamp :: "nat \<Rightarrow> string" where
  "fixedStamp n = ''2024-01-01T00:00:00.000Z''"

definition networkDown :: "nat \<Rightarrow> fetch_input \<Rightarrow> fetch_init option \<Rightarrow> thrown + response" where
  "networkDown n input init = Inl (ErrorObj ''Network error'' None)"

definition okResponse :: response where
  "okResponse = \<lparr>responseStatus = 200, responseStatusText = ''OK'', responseData = JNull\<rparr>"

definition networkUp :: "nat \<Rightarrow> fetch_input \<Rightarrow> fetch_init option \<Rightarrow> thrown + response" where
  "networkUp n input init = Inr okResponse"

definition browser :: "(nat \<Rightarrow> fetch_input \<Rightarrow> fetch_init option \<Rightarrow> thrown + response) \<Rightarrow> client_host" where
  "browser net =
     \<lparr>toStr = noString, jsonParse = noParse, jsonStringify = stringifyId, randomUUID = None,
      fallbackId = countingId, performanceNow = steadyClock, toISOString = fixedStamp,
      originalFetch = net\<rparr>"

definition sampleEvent :: "string \<Rightarrow> RequestEvent" where
  "sampleEvent u = successEventOf (UrlString u) None ''req_1'' ''2024-01-01T00:00:00.000Z'' okResponse 10"

definition freshWorld :: world where
  "freshWorld =
     \<lparr>readings = 0, fetchIntercepted = True, networkCalls = [], dispatched = [], loggerOut = [],
      consoleLog = [], consoleError = [], onErrorCalls = []\<rparr>"

definition clientModule :: "LoggerConfig \<Rightarrow> module_state" where
  "clientModule cfg = moduleState (loadModule clientRuntime) cfg True"

definition throwingProvider :: "unit \<Rightarrow> thrown + jsobj" where
  "throwingProvider u = Inl (ErrorObj ''provider failed'' None)"

definition userProvider :: "unit \<Rightarrow> thrown + jsobj" where
  "userProvider u = Inr [(''userId'', JStr ''u1'')]"

text \<open>An \<^verbatim>\<open>onError\<close> callback that returns, and one that throws what it is given.\<close>

definition acceptError :: "thrown \<Rightarrow> thrown option" where
  "acceptError e = None"

definition rethrowError :: "thrown \<Rightarrow> thrown option" where
  "rethrowError e = Some e"

definition rejectSuccess :: "RequestEvent \<Rightarrow> thrown + RequestEvent" where
  "rejectSuccess ev =
     (if event ev = request_success then Inl (ErrorObj ''transform failed'' None) else Inr ev)"

definition rejectError :: "RequestEvent \<Rightarrow> thrown + RequestEvent" where
  "rejectError ev =
     (if event ev = request_error then Inl (ErrorObj ''transform failed'' None) else Inr ev)"

text \<open>
  \<open>callbacksReturn\<close>: none of the three configured callbacks throws. \<open>terminalOf\<close>: the
  terminal event that belongs to an outcome of the original \<^verbatim>\<open>fetch\<close>.
\<close>

definition callbacksReturn :: "LoggerConfig \<Rightarrow> bool" where
  "callbacksReturn cfg =
     ((case contextProvider cfg of
         None \<Rightarrow> True
       | Some provider \<Rightarrow> (case provider () of Inl e \<Rightarrow> False | Inr extra \<Rightarrow> True))
      \<and> (case transformLog cfg of
            None \<Rightarrow> True
          | Some t \<Rightarrow> (\<forall>ev. case t ev of Inl e \<Rightarrow> False | Inr fin \<Rightarrow> True))
      \<and> (case onError cfg of
            None \<Rightarrow> True
          | Some callback \<Rightarrow> (\<forall>e. callback e = None)))"

definition terminalOf :: "thrown + response \<Rightarrow> event_type" where
  "terminalOf outcome = (case outcome of Inl e \<Rightarrow> request_error | Inr resp \<Rightarrow> request_success)"

text \<open>The events a call handed to \<open>logEvent\<close> for its own URL, between two worlds.\<close>

definition ownEvents :: "fetch_input \<Rightarrow> world \<Rightarrow> world \<Rightarrow> RequestEvent list" where
  "ownEvents input w w' =
     filter (\<lambda>d. url d = urlOf input) (drop (length (dispatched w)) (dispatched w'))"

section \<open>Properties of the ingestion endpoint\<close>

subsection \<open>Objects and the rate limiter\<close>

lemma map_of_set_prop: "map_of (set_prop k v ps) = (map_of ps)(k \<mapsto> v)"
  by (induction ps) (auto simp: fun_eq_iff)

lemma map_of_spread: "map_of (spread base extra) = map_of base ++ map_of (rev extra)"
  unfolding spread_def
proof (induction extra arbitrary: base)
  case Nil
  then show ?case by simp
next
  case (Cons kv extra)
  obtain k v where kv: "kv = (k, v)" by (cases kv)
  have "map_of (fold (\<lambda>(k, v). set_prop k v) extra (set_prop k v base))
          = map_of (set_prop k v base) ++ map_of (rev extra)"
    by (rule Cons.IH)
  then show ?case
    by (simp add: kv map_of_set_prop fun_eq_iff map_add_def split: option.splits)
qed

lemma checkRateLimit_other:
  "ip' \<noteq> ip \<Longrightarrow> snd (checkRateLimit ip' limit now store) ip = store ip"
  by (simp add: checkRateLimit_def split: option.splits)

lemma admits_length: "length (admits limit store rs) = length rs"
  by (induction rs arbitrary: store) auto

lemma admits_live:
  assumes "store ip = Some r"
    and "\<forall>q \<in> set rs. fst q = ip \<longrightarrow> snd q \<le> resetTime r"
    and "k < length rs" and "fst (rs ! k) = ip"
  shows "admits limit store rs ! k
           = (count r + length (filter (\<lambda>q. fst q = ip) (take k rs)) < limit)"
  using assms
proof (induction rs arbitrary: store r k)
  case Nil
  then show ?case by simp
next
  case (Cons q rs)
  obtain i t where q: "q = (i, t)" by (cases q)
  show ?case
  proof (cases "i = ip")
    case True
    with Cons.prems q have le: "t \<le> resetTime r" by simp
    show ?thesis
    proof (cases "count r \<ge> limit")
      case full: True
      have st: "checkRateLimit ip limit t store = (False, store)"
        using Cons.prems(1) le full by (simp add: checkRateLimit_def)
      show ?thesis
      proof (cases k)
        case 0
        then show ?thesis using st q True full by simp
      next
        case (Suc k')
        have "admits limit store rs ! k'
                = (count r + length (filter (\<lambda>q. fst q = ip) (take k' rs)) < limit)"
          using Cons.IH[of store r k'] Cons.prems Suc by simp
        then show ?thesis using st q True full Suc by simp
      qed
    next
      case room: False
      let ?r' = "r\<lparr>count := count r + 1\<rparr>"
      have st: "checkRateLimit ip limit t store = (True, store(ip \<mapsto> ?r'))"
        using Cons.prems(1) le room by (simp add: checkRateLimit_def)
      show ?thesis
      proof (cases k)
        case 0
        then show ?thesis using st q True room by simp
      next
        case (Suc k')
        have live: "(store(ip \<mapsto> ?r')) ip = Some ?r'" by simp
        have times: "\<forall>q \<in> set rs. fst q = ip \<longrightarrow> snd q \<le> resetTime ?r'"
          using Cons.prems(2) by simp
        have "admits limit (store(ip \<mapsto> ?r')) rs ! k'
                = (count ?r' + length (filter (\<lambda>q. fst q = ip) (take k' rs)) < limit)"
          using Cons.prems(3,4) Suc
          by (intro Cons.IH[of "store(ip \<mapsto> ?r')" ?r' k', OF live times]) simp_all
        then show ?thesis using st q True Suc by simp
      qed
    qed
  next
    case False
    have keep: "snd (checkRateLimit i limit t store) ip = Some r"
      using False Cons.prems(1) by (simp add: checkRateLimit_other)
    from Cons.prems q False obtain k' where Suc: "k = Suc k'" by (cases k) auto
    have "admits limit (snd (checkRateLimit i limit t store)) rs ! k'
            = (count r + length (filter (\<lambda>q. fst q = ip) (take k' rs)) < limit)"
      using Cons.IH[of "snd (checkRateLimit i limit t store)" r k', OF keep] Cons.prems Suc by simp
    then show ?thesis using q False Suc by simp
  qed
qed

lemma admits_window:
  assumes "windowOpen store ip t0"
    and "\<forall>q \<in> set rs. fst q = ip \<longrightarrow> snd q \<le> t0 + windowMs"
    and "k < length ((ip, t0) # rs)" and "fst (((ip, t0) # rs) ! k) = ip"
    and "0 < limit"
  shows "admits limit store ((ip, t0) # rs) ! k
           = (length (filter (\<lambda>q. fst q = ip) (take k ((ip, t0) # rs))) < limit)"
proof -
  let ?r = "\<lparr>count = 1, resetTime = t0 + windowMs\<rparr>"
  have st: "checkRateLimit ip limit t0 store = (True, store(ip \<mapsto> ?r))"
  proof (cases "store ip")
    case None
    then show ?thesis by (simp add: checkRateLimit_def)
  next
    case (Some old)
    then show ?thesis using assms(1) by (simp add: checkRateLimit_def windowOpen_def)
  qed
  show ?thesis
  proof (cases k)
    case 0
    then show ?thesis using st assms(5) by simp
  next
    case (Suc k')
    have live: "(store(ip \<mapsto> ?r)) ip = Some ?r" by simp
    have times: "\<forall>q \<in> set rs. fst q = ip \<longrightarrow> snd q \<le> resetTime ?r"
      using assms(2) by simp
    have "admits limit (store(ip \<mapsto> ?r)) rs ! k'
            = (count ?r + length (filter (\<lambda>q. fst q = ip) (take k' rs)) < limit)"
      using assms(3,4) Suc
      by (intro admits_live[of "store(ip \<mapsto> ?r)" ip ?r rs k' limit, OF live times]) simp_all
    then show ?thesis using st Suc by simp
  qed
qed

lemma limiterKey_pair: "limiterKey (h, req) = (getClientIP req, dateNow h)"
  by (simp add: limiterKey_def)

lemma get_prop_defined:
  "v \<noteq> JNull \<Longrightarrow> v \<noteq> JUndefined \<Longrightarrow> get_prop v k = Inr (propOf v k)"
  by (cases v) (simp_all add: propOf_def)

lemma invalidStructure_defined:
  assumes "v \<noteq> JNull" "v \<noteq> JUndefined"
  shows "invalidStructure v
           = Inr (\<not> (truthy (propOf v ''event'') \<and> truthy (propOf v ''requestId'')
                     \<and> truthy (propOf v ''url'')))"
  using assms by (simp add: invalidStructure_def get_prop_defined)

lemma invalidStructure_null:
  "invalidStructure JNull = Inl (typeError ''event'')"
  "invalidStructure JUndefined = Inl (typeError ''event'')"
  by (simp_all add: invalidStructure_def)

lemma respond_not_limited:
  "\<not> isRateLimited (fst (respond hdrs st (tryCatch h parsed ip absent hs out)))"
  by (auto simp: respond_def tryCatch_def processLog_def processFailure_def emit_def
        isRateLimited_def errorBody_def successBody_def
      split: sum.splits option.splits prod.splits if_splits)

lemma respond_store:
  "rateLimitStore (snd (respond hdrs st r)) = rateLimitStore st"
  by (auto simp: respond_def split: sum.splits prod.splits)

lemma handler_limited:
  assumes "reqMethod req = ''POST''"
  shows "isRateLimited (fst (handler h req st))
           = (\<not> fst (checkRateLimit (getClientIP req) defaultLimit (dateNow h) (rateLimitStore st)))"
proof (cases "checkRateLimit (getClientIP req) defaultLimit (dateNow h) (rateLimitStore st)")
  case (Pair ok store')
  show ?thesis
  proof (cases ok)
    case True
    then show ?thesis using assms Pair by (simp add: handler_def Let_def respond_not_limited)
  next
    case False
    then show ?thesis using assms Pair by (simp add: handler_def Let_def isRateLimited_def)
  qed
qed

lemma handler_store:
  assumes "reqMethod req = ''POST''"
  shows "rateLimitStore (snd (handler h req st))
           = snd (checkRateLimit (getClientIP req) defaultLimit (dateNow h) (rateLimitStore st))"
  using assms
  by (cases "checkRateLimit (getClientIP req) defaultLimit (dateNow h) (rateLimitStore st)")
     (simp add: handler_def Let_def respond_store)


lemma serve_length: "length (fst (serve st rs)) = length rs"
  by (induction rs arbitrary: st) auto

lemma serve_limited:
  assumes "\<forall>q \<in> set rs. reqMethod (snd q) = ''POST''"
  shows "map isRateLimited (fst (serve st rs))
           = map Not (admits defaultLimit (rateLimitStore st) (map limiterKey rs))"
  using assms
proof (induction rs arbitrary: st)
  case Nil
  then show ?case by simp
next
  case (Cons q rs)
  obtain h req where q: "q = (h, req)" by (cases q)
  have post: "reqMethod req = ''POST''" using Cons.prems q by simp
  have "map isRateLimited (fst (serve (snd (handler h req st)) rs))
          = map Not (admits defaultLimit (rateLimitStore (snd (handler h req st))) (map limiterKey rs))"
    using Cons.prems by (intro Cons.IH) simp
  then show ?case
    using q by (simp add: limiterKey_pair handler_limited[OF post] handler_store[OF post])
qed

lemma serve_window:
  assumes posts: "\<forall>q \<in> set ((h0, req0) # rs). reqMethod (snd q) = ''POST''"
    and fresh: "windowOpen (rateLimitStore st) (getClientIP req0) (dateNow h0)"
    and inside: "\<forall>q \<in> set rs. getClientIP (snd q) = getClientIP req0
                   \<longrightarrow> dateNow (fst q) \<le> dateNow h0 + windowMs"
    and k: "k < Suc (length rs)"
    and same: "getClientIP (snd (((h0, req0) # rs) ! k)) = getClientIP req0"
  shows "isRateLimited (fst (serve st ((h0, req0) # rs)) ! k)
           = (defaultLimit \<le> length (filter (\<lambda>q. getClientIP (snd q) = getClientIP req0)
                                      (take k ((h0, req0) # rs))))"
proof -
  let ?ip = "getClientIP req0"
  let ?qs = "(h0, req0) # rs"
  let ?keys = "map limiterKey rs"
  have keys: "map limiterKey ?qs = (?ip, dateNow h0) # ?keys"
    by (simp add: limiterKey_pair)
  have inside': "\<forall>q \<in> set ?keys. fst q = ?ip \<longrightarrow> snd q \<le> dateNow h0 + windowMs"
    using inside by (auto simp: limiterKey_def)
  have k': "k < length ((?ip, dateNow h0) # ?keys)" using k by simp
  have same': "fst (((?ip, dateNow h0) # ?keys) ! k) = ?ip"
    using same k by (cases k) (simp_all add: limiterKey_def)
  have cnt: "length (filter (\<lambda>q. fst q = ?ip) (take k ((?ip, dateNow h0) # ?keys)))
               = length (filter (\<lambda>q. getClientIP (snd q) = ?ip) (take k ?qs))"
  proof -
    have "map limiterKey (take k ?qs) = take k (map limiterKey ?qs)"
      by (simp only: take_map)
    then have "take k ((?ip, dateNow h0) # ?keys) = map limiterKey (take k ?qs)"
      by (simp only: keys)
    then show ?thesis
      by (simp add: filter_map comp_def limiterKey_def)
  qed
  have "k < length (fst (serve st ?qs))"
    using k by (simp only: serve_length length_Cons)
  then have "isRateLimited (fst (serve st ?qs) ! k) = map isRateLimited (fst (serve st ?qs)) ! k"
    by (simp only: nth_map)
  also have "\<dots> = map Not (admits defaultLimit (rateLimitStore st) (map limiterKey ?qs)) ! k"
    using serve_limited[OF posts] by simp
  also have "\<dots> = (\<not> admits defaultLimit (rateLimitStore st) ((?ip, dateNow h0) # ?keys) ! k)"
  proof -
    have "k < length (admits defaultLimit (rateLimitStore st) (map limiterKey ?qs))"
      using k by (simp only: admits_length length_map length_Cons)
    then show ?thesis by (simp only: nth_map keys)
  qed
  also have "\<dots> = (\<not> length (filter (\<lambda>q. fst q = ?ip) (take k ((?ip, dateNow h0) # ?keys)))
                       < defaultLimit)"
    using admits_window[OF fresh inside' k' same'] by (simp add: defaultLimit_def)
  finally show ?thesis using cnt by (simp add: not_less)
qed


lemma sample_run_then:
  assumes post: "reqMethod req = ''POST''" and ip: "getClientIP req = getClientIP sampleRequest"
    and now: "dateNow h \<le> dateNow sampleHost + windowMs"
  shows "isRateLimited (fst (serve emptyState (replicate (Suc m) (sampleHost, sampleRequest) @ [(h, req)]))
           ! Suc m) = (defaultLimit \<le> Suc m)"
proof -
  let ?q = "(sampleHost, sampleRequest)"
  let ?rs = "replicate m ?q @ [(h, req)]"
  have list: "replicate (Suc m) ?q @ [(h, req)] = ?q # ?rs" by simp
  have posts: "\<forall>q \<in> set (?q # ?rs). reqMethod (snd q) = ''POST''"
    using post by (auto simp: sampleRequest_def)
  have fresh: "windowOpen (rateLimitStore emptyState) (getClientIP sampleRequest) (dateNow sampleHost)"
    by (simp add: windowOpen_def emptyState_def)
  have inside: "\<forall>q \<in> set ?rs. getClientIP (snd q) = getClientIP sampleRequest
                  \<longrightarrow> dateNow (fst q) \<le> dateNow sampleHost + windowMs"
    using now by (auto simp: windowMs_def)
  have k: "Suc m < Suc (length ?rs)" by simp
  have same: "getClientIP (snd ((?q # ?rs) ! Suc m)) = getClientIP sampleRequest"
    using ip by (simp add: nth_append)
  have tk: "take (Suc m) (?q # ?rs) = replicate (Suc m) ?q" by simp
  have eq: "isRateLimited (fst (serve emptyState (?q # ?rs)) ! Suc m)
          = (defaultLimit \<le> length (filter (\<lambda>q. getClientIP (snd q) = getClientIP sampleRequest)
                                     (take (Suc m) (?q # ?rs))))"
    by (rule serve_window[OF posts fresh inside k same])
  have "isRateLimited (fst (serve emptyState (?q # ?rs)) ! Suc m) = (defaultLimit \<le> Suc m)"
    unfolding eq tk by (simp only: filter_replicate snd_conv if_True length_replicate refl)
  then show ?thesis unfolding list .
qed




lemma tryCatch_invalid:
  assumes "v \<noteq> JNull" "v \<noteq> JUndefined"
    and "\<not> (truthy (propOf v ''event'') \<and> truthy (propOf v ''requestId'') \<and> truthy (propOf v ''url''))"
  shows "tryCatch h (Inr v) ip absent hs out
           = Inr ((400, errorBody ''Invalid log data structure''), out)"
  using assms(3)
  by (simp add: tryCatch_def processLog_def invalidStructure_defined[OF assms(1,2)])

lemma handler_admitted:
  assumes "reqMethod req = ''POST''"
    and "fst (checkRateLimit (getClientIP req) defaultLimit (dateNow h) (rateLimitStore st))"
  shows "handler h req st
           = respond (corsHeaders (map_of (reqHeaders req) ''origin''))
               (st\<lparr>rateLimitStore :=
                     snd (checkRateLimit (getClientIP req) defaultLimit (dateNow h) (rateLimitStore st))\<rparr>)
               (tryCatch h (Inr (reqBody req)) (getClientIP req) JUndefined (reqHeaders req) (logged st))"
  using assms
  by (cases "checkRateLimit (getClientIP req) defaultLimit (dateNow h) (rateLimitStore st)")
     (simp add: handler_def Let_def)

lemma POST_admitted:
  assumes "fst (checkRateLimit (getClientIP_app req) defaultLimit (dateNow h) (rateLimitStore st))"
  shows "POST h req st
           = respond ((''Content-Type'', ''application/json'') # corsHeaders (map_of (appHeaders req) ''origin''))
               (st\<lparr>rateLimitStore :=
                     snd (checkRateLimit (getClientIP_app req) defaultLimit (dateNow h) (rateLimitStore st))\<rparr>)
               (tryCatch h (jsonBody req) (getClientIP_app req) JNull (appHeaders req) (logged st))"
  using assms
  by (cases "checkRateLimit (getClientIP_app req) defaultLimit (dateNow h) (rateLimitStore st)")
     (simp add: POST_def Let_def)









lemma sample_admitted:
  "fst (checkRateLimit ip defaultLimit now (rateLimitStore emptyState))"
  by (simp add: checkRateLimit_def emptyState_def)

subsection \<open>C5: a valid envelope is answered with 200 and written through the logger\<close>




subsection \<open>C6: an envelope without the three fields is refused with 400\<close>

text \<open>
  Claim C6, as the code has it. A POST that the rate limiter admits, whose body is
  neither \<^verbatim>\<open>null\<close> nor \<^verbatim>\<open>undefined\<close> and lacks a truthy \<^verbatim>\<open>event\<close>, \<^verbatim>\<open>requestId\<close> or \<^verbatim>\<open>url\<close>,
  is answered with 400 and \<^verbatim>\<open>{"error": "Invalid log data structure"}\<close> by both routers;
  the list of records is unchanged and only the rate-limit store moves.
\<close>

theorem ingest_invalid_envelope:
  assumes "v \<noteq> JNull" and "v \<noteq> JUndefined"
    and "\<not> (truthy (propOf v ''event'') \<and> truthy (propOf v ''requestId'') \<and> truthy (propOf v ''url''))"
    and "reqMethod req = ''POST''" and "reqBody req = v"
    and "fst (checkRateLimit (getClientIP req) defaultLimit (dateNow h) (rateLimitStore st))"
    and "jsonBody areq = Inr v"
    and "fst (checkRateLimit (getClientIP_app areq) defaultLimit (dateNow h) (rateLimitStore st))"
  shows "handler h req st
           = (Inr \<lparr>statusCode = 400, payload = Some (errorBody ''Invalid log data structure''),
                   sentHeaders = corsHeaders (map_of (reqHeaders req) ''origin'')\<rparr>,
              st\<lparr>rateLimitStore :=
                    snd (checkRateLimit (getClientIP req) defaultLimit (dateNow h) (rateLimitStore st))\<rparr>)
         \<and> POST h areq st
           = (Inr \<lparr>statusCode = 400, payload = Some (errorBody ''Invalid log data structure''),
                   sentHeaders = (''Content-Type'', ''application/json'')
                                   # corsHeaders (map_of (appHeaders areq) ''origin'')\<rparr>,
              st\<lparr>rateLimitStore :=
                    snd (checkRateLimit (getClientIP_app areq) defaultLimit (dateNow h) (rateLimitStore st))\<rparr>)"
proof
  show "handler h req st
           = (Inr \<lparr>statusCode = 400, payload = Some (errorBody ''Invalid log data structure''),
                   sentHeaders = corsHeaders (map_of (reqHeaders req) ''origin'')\<rparr>,
              st\<lparr>rateLimitStore :=
                    snd (checkRateLimit (getClientIP req) defaultLimit (dateNow h) (rateLimitStore st))\<rparr>)"
    by (simp add: handler_admitted[OF assms(4,6)] assms(5) tryCatch_invalid[OF assms(1,2,3)] respond_def)
  show "POST h areq st
           = (Inr \<lparr>statusCode = 400, payload = Some (errorBody ''Invalid log data structure''),
                   sentHeaders = (''Content-Type'', ''application/json'')
                                   # corsHeaders (map_of (appHeaders areq) ''origin'')\<rparr>,
              st\<lparr>rateLimitStore :=
                    snd (checkRateLimit (getClientIP_app areq) defaultLimit (dateNow h) (rateLimitStore st))\<rparr>)"
    by (simp add: POST_admitted[OF assms(8)] assms(7) tryCatch_invalid[OF assms(1,2,3)] respond_def)
qed

text \<open>The theorem at a request whose envelope has no \<^verbatim>\<open>requestId\<close>, on the empty state.\<close>

theorem ingest_invalid_envelope_witness:
  "fst (handler sampleHost (sampleRequest\<lparr>reqBody := missingIdEnvelope\<rparr>) emptyState)
     = Inr \<lparr>statusCode = 400, payload = Some (errorBody ''Invalid log data structure''),
            sentHeaders = corsHeaders None\<rparr>
   \<and> logged (snd (handler sampleHost (sampleRequest\<lparr>reqBody := missingIdEnvelope\<rparr>) emptyState)) = []
   \<and> fst (POST sampleHost (sampleAppRequest missingIdEnvelope) emptyState)
     = Inr \<lparr>statusCode = 400, payload = Some (errorBody ''Invalid log data structure''),
            sentHeaders = (''Content-Type'', ''application/json'') # corsHeaders None\<rparr>
   \<and> logged (snd (POST sampleHost (sampleAppRequest missingIdEnvelope) emptyState)) = []"
proof -
  have v1: "missingIdEnvelope \<noteq> JNull" and v2: "missingIdEnvelope \<noteq> JUndefined"
    by (simp_all add: missingIdEnvelope_def)
  have bad: "\<not> (truthy (propOf missingIdEnvelope ''event'')
              \<and> truthy (propOf missingIdEnvelope ''requestId'')
              \<and> truthy (propOf missingIdEnvelope ''url''))"
    by (simp add: missingIdEnvelope_def propOf_def)
  have m: "reqMethod (sampleRequest\<lparr>reqBody := missingIdEnvelope\<rparr>) = ''POST''"
    by (simp add: sampleRequest_def)
  have b: "reqBody (sampleRequest\<lparr>reqBody := missingIdEnvelope\<rparr>) = missingIdEnvelope" by simp
  have j: "jsonBody (sampleAppRequest missingIdEnvelope) = Inr missingIdEnvelope"
    by (simp add: sampleAppRequest_def)
  have o1: "map_of (reqHeaders sampleRequest) ''origin'' = None"
    by (simp add: sampleRequest_def)
  have o2: "map_of (appHeaders (sampleAppRequest missingIdEnvelope)) ''origin'' = None"
    by (simp add: sampleAppRequest_def)
  show ?thesis
    using ingest_invalid_envelope[where h = sampleHost and st = emptyState,
            OF v1 v2 bad m b sample_admitted j sample_admitted]
    by (simp add: o1 o2 emptyState_def)
qed

text \<open>
  Claim C6 as stated fails twice. For the body \<^verbatim>\<open>null\<close>, which has none of the three
  fields, the property read throws and the handler answers 500 after writing one error
  record. And a request without \<^verbatim>\<open>requestId\<close> that follows 100 requests of its address
  inside one window is answered with 429.
\<close>

theorem ingest_invalid_envelope_counterexample:
  "reqMethod (sampleRequest\<lparr>reqBody := JNull\<rparr>) = ''POST''
   \<and> fst (handler sampleHost (sampleRequest\<lparr>reqBody := JNull\<rparr>) emptyState)
     = Inr \<lparr>statusCode = 500, payload = Some (errorBody ''Internal server error''),
            sentHeaders = corsHeaders None\<rparr>
   \<and> logged (snd (handler sampleHost (sampleRequest\<lparr>reqBody := JNull\<rparr>) emptyState))
     = [(Error, failureRecord noString (typeError ''event'') ''10.0.0.1'',
         Some ''Failed to process client log'',
         Some (written sampleHost (failureRecord noString (typeError ''event'') ''10.0.0.1'')))]
   \<and> reqMethod (sampleRequest\<lparr>reqBody := missingIdEnvelope\<rparr>) = ''POST''
   \<and> isRateLimited (fst (serve emptyState
         (replicate 100 (sampleHost, sampleRequest)
            @ [(sampleHost, sampleRequest\<lparr>reqBody := missingIdEnvelope\<rparr>)])) ! 100)"
proof -
  have null: "fst (handler sampleHost (sampleRequest\<lparr>reqBody := JNull\<rparr>) emptyState)
     = Inr \<lparr>statusCode = 500, payload = Some (errorBody ''Internal server error''),
            sentHeaders = corsHeaders None\<rparr>
   \<and> logged (snd (handler sampleHost (sampleRequest\<lparr>reqBody := JNull\<rparr>) emptyState))
     = [(Error, failureRecord noString (typeError ''event'') ''10.0.0.1'',
         Some ''Failed to process client log'',
         Some (written sampleHost (failureRecord noString (typeError ''event'') ''10.0.0.1'')))]"
    by (simp add: handler_def Let_def sampleRequest_def sampleHost_def emptyState_def
        checkRateLimit_def defaultLimit_def getClientIP_def tryCatch_def processLog_def
        processFailure_def invalidStructure_def emit_def quietEmitter_def respond_def)
  have m: "reqMethod (sampleRequest\<lparr>reqBody := JNull\<rparr>) = ''POST''"
          "reqMethod (sampleRequest\<lparr>reqBody := missingIdEnvelope\<rparr>) = ''POST''"
    by (simp_all add: sampleRequest_def)
  have ip: "getClientIP (sampleRequest\<lparr>reqBody := missingIdEnvelope\<rparr>) = getClientIP sampleRequest"
    by (simp add: getClientIP_def)
  have now: "dateNow sampleHost \<le> dateNow sampleHost + windowMs" by (simp add: windowMs_def)
  have n: "(100::nat) = Suc 99" by simp
  have "defaultLimit \<le> Suc 99" by (simp add: defaultLimit_def)
  then have "isRateLimited (fst (serve emptyState
         (replicate (Suc 99) (sampleHost, sampleRequest)
            @ [(sampleHost, sampleRequest\<lparr>reqBody := missingIdEnvelope\<rparr>)])) ! Suc 99)"
    by (simp only: sample_run_then[OF m(2) ip now])
  then have limited: "isRateLimited (fst (serve emptyState
         (replicate 100 (sampleHost, sampleRequest)
            @ [(sampleHost, sampleRequest\<lparr>reqBody := missingIdEnvelope\<rparr>)])) ! 100)"
    by (simp only: n)
  from null have n1: "fst (handler sampleHost (sampleRequest\<lparr>reqBody := JNull\<rparr>) emptyState)
     = Inr \<lparr>statusCode = 500, payload = Some (errorBody ''Internal server error''),
            sentHeaders = corsHeaders None\<rparr>"
    by (rule conjunct1)
  from null have n2: "logged (snd (handler sampleHost (sampleRequest\<lparr>reqBody := JNull\<rparr>) emptyState))
     = [(Error, failureRecord noString (typeError ''event'') ''10.0.0.1'',
         Some ''Failed to process client log'',
         Some (written sampleHost (failureRecord noString (typeError ''event'') ''10.0.0.1'')))]"
    by (rule conjunct2)
  show ?thesis
    by (intro conjI) (rule m(1) n1 n2 m(2) limited)+
qed

subsection \<open>C7: at most \<open>defaultLimit\<close> requests per address and window\<close>



section \<open>Properties of the universal logger\<close>

subsection \<open>C3: the context gate\<close>

lemma logCall_SilentLogger: "logCall SilentLogger lvl obj msg out = out"
  by simp

lemma child_chain_silent: "foldl child SilentLogger fs = SilentLogger"
  by (induction fs) (simp_all add: createSilentLogger_def)

lemma child_chain_pino: "\<exists>bound'. foldl child (Pino least bound) fs = Pino least bound'"
  by (induction fs arbitrary: bound) simp_all

lemma logger_loadModule:
  "logger (loadModule rt0)
     = (if windowDefined rt0 then ClientFallback (NODE_ENV rt0 = Some ''development'')
        else if pinoThrows rt0 then ServerFallback
        else (case pinoLevel (levelOption rt0 (NODE_ENV rt0 = Some ''development'')) of
                None \<Rightarrow> ServerFallback
              | Some least \<Rightarrow> Pino least []))"
  by (simp add: loadModule_def createSimpleLogger_def Let_def split: option.splits)

lemma server_child_writes:
  assumes "\<not> windowDefined rt0"
  shows "(logCall (child (logger (loadModule rt0)) base) lvl obj msg out \<noteq> out)
           = (pinoThrows rt0
              \<or> (case pinoLevel (levelOption rt0 (NODE_ENV rt0 = Some ''development'')) of
                    None \<Rightarrow> True
                  | Some least \<Rightarrow> isLevelEnabled least lvl))"
  using assms by (simp add: logger_loadModule split: option.splits)

lemma server_child_not_silent:
  assumes "\<not> windowDefined rt0"
  shows "child (logger (loadModule rt0)) base \<noteq> SilentLogger"
  using assms by (simp add: logger_loadModule split: option.splits)

text \<open>
  Claim C3, as the code has it. In a module loaded on the server,
  \<^verbatim>\<open>createChildLogger(context)\<close> returns the logger of \<^verbatim>\<open>createSilentLogger\<close> exactly when the
  module was loaded in development, \<^verbatim>\<open>LOG_MODULE\<close> is set at the time of the call, and
  \<^verbatim>\<open>context.module\<close> is not among its comma-separated, trimmed entries. The silent logger's
  level methods leave every output as it was, and every chain of \<^verbatim>\<open>child\<close> calls from it
  ends in a silent logger. In every other case the result is the child of the module's
  logger for the base object, and a level method of it writes exactly when the module's
  logger is the console fallback or the level is enabled under the level that pino was
  given at load.
\<close>

theorem context_gate_silence:
  assumes "\<not> windowDefined rt0"
  shows "(createChildLogger (loadModule rt0) rt c = SilentLogger)
           = (NODE_ENV rt0 = Some ''development''
              \<and> (\<exists>s. LOG_MODULE rt = Some s \<and> module c \<notin> set (map trim (split_on CHR '','' s))))
         \<and> (\<forall>lvl (obj :: 'p) msg out. logCall SilentLogger lvl obj msg out = out)
         \<and> (\<forall>fs. foldl child SilentLogger fs = SilentLogger)
         \<and> (createChildLogger (loadModule rt0) rt c \<noteq> SilentLogger \<longrightarrow>
              createChildLogger (loadModule rt0) rt c
                = child (logger (loadModule rt0)) (childBase (loadModule rt0) rt c)
              \<and> (\<forall>lvl (obj :: 'p) msg out.
                    (logCall (createChildLogger (loadModule rt0) rt c) lvl obj msg out \<noteq> out)
                      = (pinoThrows rt0
                         \<or> (case pinoLevel (levelOption rt0 (NODE_ENV rt0 = Some ''development'')) of
                               None \<Rightarrow> True
                             | Some least \<Rightarrow> isLevelEnabled least lvl))))"
proof -
  let ?M = "loadModule rt0"
  have srv: "\<not> isClient ?M" using assms by (simp add: loadModule_def Let_def)
  have dev: "isDev ?M = (NODE_ENV rt0 = Some ''development'')" by (simp add: loadModule_def Let_def)
  have gate: "shouldLogModule rt (module c)
                = (\<not> (\<exists>s. LOG_MODULE rt = Some s \<and> module c \<notin> set (map trim (split_on CHR '','' s))))"
    by (cases "LOG_MODULE rt") (simp_all add: shouldLogModule_def)
  have cases: "createChildLogger ?M rt c
                 = (if isDev ?M \<and> \<not> shouldLogModule rt (module c) then SilentLogger
                    else child (logger ?M) (childBase ?M rt c))"
    using srv by (simp add: createChildLogger_def createSilentLogger_def)
  have iff: "(createChildLogger ?M rt c = SilentLogger)
               = (NODE_ENV rt0 = Some ''development''
                  \<and> (\<exists>s. LOG_MODULE rt = Some s \<and> module c \<notin> set (map trim (split_on CHR '','' s))))"
    using server_child_not_silent[OF assms] by (simp add: cases dev gate)
  have live: "createChildLogger ?M rt c \<noteq> SilentLogger \<longrightarrow>
              createChildLogger ?M rt c = child (logger ?M) (childBase ?M rt c)
              \<and> (\<forall>lvl (obj :: 'p) msg out.
                    (logCall (createChildLogger ?M rt c) lvl obj msg out \<noteq> out)
                      = (pinoThrows rt0
                         \<or> (case pinoLevel (levelOption rt0 (NODE_ENV rt0 = Some ''development'')) of
                               None \<Rightarrow> True
                             | Some least \<Rightarrow> isLevelEnabled least lvl)))"
  proof
    assume ns: "createChildLogger ?M rt c \<noteq> SilentLogger"
    then have eq: "createChildLogger ?M rt c = child (logger ?M) (childBase ?M rt c)"
      by (simp add: cases split: if_splits)
    have "\<And>lvl (obj :: 'p) msg out.
            (logCall (child (logger ?M) (childBase ?M rt c)) lvl obj msg out \<noteq> out)
              = (pinoThrows rt0
                 \<or> (case pinoLevel (levelOption rt0 (NODE_ENV rt0 = Some ''development'')) of
                       None \<Rightarrow> True
                     | Some least \<Rightarrow> isLevelEnabled least lvl))"
      by (rule server_child_writes[OF assms])
    then show "createChildLogger ?M rt c = child (logger ?M) (childBase ?M rt c)
              \<and> (\<forall>lvl (obj :: 'p) msg out.
                    (logCall (createChildLogger ?M rt c) lvl obj msg out \<noteq> out)
                      = (pinoThrows rt0
                         \<or> (case pinoLevel (levelOption rt0 (NODE_ENV rt0 = Some ''development'')) of
                               None \<Rightarrow> True
                             | Some least \<Rightarrow> isLevelEnabled least lvl)))"
      using eq by simp
  qed
  have quiet: "\<forall>lvl (obj :: 'p) msg out. logCall SilentLogger lvl obj msg out = out"
    by simp
  have chain: "\<forall>fs. foldl child SilentLogger fs = SilentLogger"
    using child_chain_silent by blast
  show ?thesis
    by (intro conjI) (rule iff quiet chain live)+
qed

text \<open>
  The theorem in development with \<^verbatim>\<open>LOG_MODULE = "a, b"\<close>: module \<^verbatim>\<open>c\<close> is silenced, module
  \<^verbatim>\<open>b\<close> is not, and its logger writes at \<open>Debug\<close> and not at \<open>Trace\<close>; module \<^verbatim>\<open>b\<close> is
  not silenced either when a no-break space (U+00A0) stands before it in the list; and
  in production with the list \<^verbatim>\<open>"a, b"\<close> nothing is silenced.
\<close>

theorem context_gate_silence_witness:
  "createChildLogger (loadModule devRuntime) devRuntime (sampleContext ''c'') = SilentLogger
   \<and> createChildLogger (loadModule devRuntime) devRuntime (sampleContext ''b'') \<noteq> SilentLogger
   \<and> logCall (createChildLogger (loadModule devRuntime) devRuntime (sampleContext ''b''))
        Debug ([] :: jsobj) None [] \<noteq> []
   \<and> logCall (createChildLogger (loadModule devRuntime) devRuntime (sampleContext ''b''))
        Trace ([] :: jsobj) None [] = []
   \<and> createChildLogger (loadModule devRuntime)
        (devRuntime\<lparr>LOG_MODULE := Some (''a,'' @ [CHR 0xC2, CHR 0xA0] @ ''b'')\<rparr>)
        (sampleContext ''b'') \<noteq> SilentLogger
   \<and> createChildLogger (loadModule serverRuntime) (serverRuntime\<lparr>LOG_MODULE := Some ''a, b''\<rparr>)
        (sampleContext ''c'') \<noteq> SilentLogger"
proof -
  have d: "\<not> windowDefined devRuntime" by (simp add: devRuntime_def)
  have entries: "trim ''a'' = ''a''" "trim '' b'' = ''b''"
    by (simp_all add: trim_def stripLeading.simps whiteSpace_def)
  have entries': "trim [CHR 0xC2, CHR 0xA0, CHR ''b''] = ''b''"
    by (simp add: trim_def stripLeading.simps whiteSpace_def)
  have nb: "createChildLogger (loadModule devRuntime)
        (devRuntime\<lparr>LOG_MODULE := Some (''a,'' @ [CHR 0xC2, CHR 0xA0] @ ''b'')\<rparr>)
        (sampleContext ''b'') \<noteq> SilentLogger"
    using context_gate_silence[OF d,
            of "devRuntime\<lparr>LOG_MODULE := Some (''a,'' @ [CHR 0xC2, CHR 0xA0] @ ''b'')\<rparr>"
               "sampleContext ''b''", THEN conjunct1]
    by (simp add: devRuntime_def sampleContext_def entries entries')
  have s: "\<not> windowDefined serverRuntime" by (simp add: serverRuntime_def)
  have 1: "createChildLogger (loadModule devRuntime) devRuntime (sampleContext ''c'') = SilentLogger"
    using context_gate_silence[OF d, of devRuntime "sampleContext ''c''", THEN conjunct1]
    by (simp add: devRuntime_def sampleContext_def entries entries')
  have 2: "createChildLogger (loadModule devRuntime) devRuntime (sampleContext ''b'') \<noteq> SilentLogger"
    using context_gate_silence[OF d, of devRuntime "sampleContext ''b''", THEN conjunct1]
    by (simp add: devRuntime_def sampleContext_def entries entries')
  have lv: "pinoLevel (levelOption devRuntime (NODE_ENV devRuntime = Some ''development''))
              = Some (AtLeast Debug)"
    by (simp add: levelOption_def pinoLevel_def devRuntime_def)
  have np: "\<not> pinoThrows devRuntime" by (simp add: devRuntime_def)
  have "\<forall>lvl (obj :: jsobj) msg out.
             (logCall (createChildLogger (loadModule devRuntime) devRuntime (sampleContext ''b''))
                lvl obj msg out \<noteq> out)
               = (pinoThrows devRuntime
                  \<or> (case pinoLevel (levelOption devRuntime (NODE_ENV devRuntime = Some ''development'')) of
                        None \<Rightarrow> True
                      | Some least \<Rightarrow> isLevelEnabled least lvl))"
    using context_gate_silence[where ?'p = jsobj, OF d, of devRuntime "sampleContext ''b''",
            THEN conjunct2, THEN conjunct2, THEN conjunct2] 2
    by blast
  then have w: "\<forall>lvl (obj :: jsobj) msg out.
             (logCall (createChildLogger (loadModule devRuntime) devRuntime (sampleContext ''b''))
                lvl obj msg out \<noteq> out) = isLevelEnabled (AtLeast Debug) lvl"
    by (simp only: lv np option.case simp_thms)
  have 3: "logCall (createChildLogger (loadModule devRuntime) devRuntime (sampleContext ''b''))
        Debug ([] :: jsobj) None [] \<noteq> []"
    using w[rule_format, of Debug "[]" None "[]"] by simp
  have 4: "logCall (createChildLogger (loadModule devRuntime) devRuntime (sampleContext ''b''))
        Trace ([] :: jsobj) None [] = []"
    using w[rule_format, of Trace "[]" None "[]"] by simp
  have 5: "createChildLogger (loadModule serverRuntime) (serverRuntime\<lparr>LOG_MODULE := Some ''a, b''\<rparr>)
        (sampleContext ''c'') \<noteq> SilentLogger"
    using context_gate_silence[OF s, of "serverRuntime\<lparr>LOG_MODULE := Some ''a, b''\<rparr>" "sampleContext ''c''", THEN conjunct1]
    by (simp add: serverRuntime_def)
  show ?thesis
    by (intro conjI) (rule 1 2 3 4 nb 5)+
qed

text \<open>
  Claim C3 as stated fails on a production server with \<^verbatim>\<open>LOG_LEVEL=silent\<close>: the
  deployment is not development and \<^verbatim>\<open>LOG_MODULE\<close> is unset, yet no level method of the
  logger returned, nor of any logger obtained from it by \<^verbatim>\<open>child\<close>, writes anything. And
  on a production server without \<^verbatim>\<open>LOG_LEVEL\<close> the logger returned writes at \<open>Info\<close> but
  not at \<open>Debug\<close>.
\<close>

theorem context_gate_silence_counterexample:
  "NODE_ENV silentRuntime = Some ''production''
   \<and> LOG_MODULE silentRuntime = None
   \<and> (\<forall>fs lvl (obj :: jsobj) msg out.
         logCall (foldl child (createChildLogger (loadModule silentRuntime) silentRuntime
                                 (sampleContext ''auth'')) fs) lvl obj msg out = out)
   \<and> logCall (createChildLogger (loadModule serverRuntime) serverRuntime (sampleContext ''auth''))
        Debug ([] :: jsobj) None [] = []
   \<and> logCall (createChildLogger (loadModule serverRuntime) serverRuntime (sampleContext ''auth''))
        Info ([] :: jsobj) None [] \<noteq> []"
proof -
  have made: "\<exists>bound. createChildLogger (loadModule silentRuntime) silentRuntime (sampleContext ''auth'')
                 = Pino Silent bound"
    by (simp add: createChildLogger_def loadModule_def createSimpleLogger_def levelOption_def
          pinoLevel_def silentRuntime_def serverRuntime_def Let_def)
  have quiet: "\<forall>fs lvl (obj :: jsobj) msg out.
         logCall (foldl child (createChildLogger (loadModule silentRuntime) silentRuntime
                                 (sampleContext ''auth'')) fs) lvl obj msg out = out"
  proof (intro allI)
    fix fs lvl and obj :: jsobj and msg out
    obtain bound where "createChildLogger (loadModule silentRuntime) silentRuntime (sampleContext ''auth'')
                 = Pino Silent bound"
      using made by blast
    moreover obtain bound' where "foldl child (Pino Silent bound) fs = Pino Silent bound'"
      using child_chain_pino by blast
    ultimately show "logCall (foldl child (createChildLogger (loadModule silentRuntime) silentRuntime
                                 (sampleContext ''auth'')) fs) lvl obj msg out = out"
      by simp
  qed
  have env: "NODE_ENV silentRuntime = Some ''production''" "LOG_MODULE silentRuntime = None"
    by (simp_all add: silentRuntime_def serverRuntime_def)
  have prod: "\<exists>bound. createChildLogger (loadModule serverRuntime) serverRuntime (sampleContext ''auth'')
                 = Pino (AtLeast Info) bound"
    by (simp add: createChildLogger_def loadModule_def createSimpleLogger_def levelOption_def
          pinoLevel_def serverRuntime_def shouldLogModule_def Let_def)
  have dbg: "logCall (createChildLogger (loadModule serverRuntime) serverRuntime (sampleContext ''auth''))
        Debug ([] :: jsobj) None [] = []"
    using prod by auto
  have inf: "logCall (createChildLogger (loadModule serverRuntime) serverRuntime (sampleContext ''auth''))
        Info ([] :: jsobj) None [] \<noteq> []"
    using prod by auto
  show ?thesis
    by (intro conjI) (rule env quiet dbg inf)+
qed

subsection \<open>C4: \<^verbatim>\<open>measureDuration\<close> observes and does not alter\<close>

lemma toFixed2_nonneg: "0 \<le> x \<Longrightarrow> 0 \<le> toFixed2 x"
proof -
  assume "0 \<le> x"
  then have "round (0::real) \<le> round (x * 100)" by (intro round_mono) simp
  then show ?thesis using \<open>0 \<le> x\<close> by (simp add: toFixed2_def)
qed

text \<open>
  Claim C4, as the code has it. With a clock that does not run backwards: when \<^verbatim>\<open>fn\<close>
  returns a value, \<^verbatim>\<open>log.info\<close> is called with the label, no error and a non-negative
  \<^verbatim>\<open>durationMs\<close>, on the state \<^verbatim>\<open>fn\<close> left, and when that call returns, \<^verbatim>\<open>measureDuration\<close>
  resolves to the value, in the state the call left; when \<^verbatim>\<open>fn\<close> throws, \<^verbatim>\<open>log.error\<close> is
  called with the value thrown, the label and \<^verbatim>\<open>durationMs\<close>, and when that call returns,
  \<^verbatim>\<open>measureDuration\<close> rejects with the very value thrown, in the state the call left.
\<close>

theorem measureDuration_observes:
  assumes "now 0 \<le> now 1"
  shows "(\<forall>v s1. fn s = (Inr v, s1) \<longrightarrow>
            (\<exists>d. label d = lbl \<and> err d = None \<and> 0 \<le> durationMs d
                  \<and> (\<forall>s2. logMethod Info d (Some (lbl @ '' completed'')) s1 = (None, s2)
                        \<longrightarrow> measureDuration lbl fn logMethod now s = (Inr v, s2))))
         \<and> (\<forall>e s1. fn s = (Inl e, s1) \<longrightarrow>
            (\<exists>d. label d = lbl \<and> err d = Some e \<and> 0 \<le> durationMs d
                  \<and> (\<forall>s2. logMethod Error d (Some (lbl @ '' failed'')) s1 = (None, s2)
                        \<longrightarrow> measureDuration lbl fn logMethod now s = (Inl e, s2))))"
proof (intro conjI allI impI)
  fix v s1
  assume fn: "fn s = (Inr v, s1)"
  let ?d = "\<lparr>err = None, durationMs = toFixed2 (now 1 - now 0), label = lbl\<rparr>"
  have "0 \<le> durationMs ?d" using toFixed2_nonneg[of "now 1 - now 0"] assms by simp
  moreover have "\<forall>s2. logMethod Info ?d (Some (lbl @ '' completed'')) s1 = (None, s2)
                   \<longrightarrow> measureDuration lbl fn logMethod now s = (Inr v, s2)"
    by (simp add: measureDuration_def fn)
  ultimately show "\<exists>d. label d = lbl \<and> err d = None \<and> 0 \<le> durationMs d
                  \<and> (\<forall>s2. logMethod Info d (Some (lbl @ '' completed'')) s1 = (None, s2)
                        \<longrightarrow> measureDuration lbl fn logMethod now s = (Inr v, s2))"
    by (intro exI[of _ ?d]) simp
next
  fix e s1
  assume fn: "fn s = (Inl e, s1)"
  let ?d = "\<lparr>err = Some e, durationMs = toFixed2 (now 1 - now 0), label = lbl\<rparr>"
  have "0 \<le> durationMs ?d" using toFixed2_nonneg[of "now 1 - now 0"] assms by simp
  moreover have "\<forall>s2. logMethod Error ?d (Some (lbl @ '' failed'')) s1 = (None, s2)
                   \<longrightarrow> measureDuration lbl fn logMethod now s = (Inl e, s2)"
    by (simp add: measureDuration_def logFailure_def fn)
  ultimately show "\<exists>d. label d = lbl \<and> err d = Some e \<and> 0 \<le> durationMs d
                  \<and> (\<forall>s2. logMethod Error d (Some (lbl @ '' failed'')) s1 = (None, s2)
                        \<longrightarrow> measureDuration lbl fn logMethod now s = (Inl e, s2))"
    by (intro exI[of _ ?d]) simp
qed

text \<open>
  The theorem for a callback returning \<^verbatim>\<open>"result"\<close> and for one throwing, on the pino
  logger of a production server with no output yet: one record each.
\<close>

theorem measureDuration_observes_witness:
  "(\<exists>d. measureDuration ''test'' returnsResult (methodsOf (Pino (AtLeast Info) [])) tickingClock []
          = (Inr ''result'', [PinoRecord Info [] d (Some ''test completed'')])
        \<and> label d = ''test'' \<and> err d = None \<and> 0 \<le> durationMs d)
   \<and> (\<exists>d. measureDuration ''test'' throwsBoom (methodsOf (Pino (AtLeast Info) [])) tickingClock []
          = (Inl (ErrorObj ''boom'' None), [PinoRecord Error [] d (Some ''test failed'')])
        \<and> label d = ''test'' \<and> err d = Some (ErrorObj ''boom'' None) \<and> 0 \<le> durationMs d)"
proof -
  have le: "tickingClock 0 \<le> tickingClock 1" by (simp add: tickingClock_def)
  have a: "returnsResult ([] :: duration_fields emitted list) = (Inr ''result'', [])"
    by (simp add: returnsResult_def)
  have b: "throwsBoom ([] :: duration_fields emitted list) = (Inl (ErrorObj ''boom'' None), [])"
    by (simp add: throwsBoom_def)
  from measureDuration_observes[OF le, of returnsResult "[]" "''test''" "methodsOf (Pino (AtLeast Info) [])"] a
  obtain d where d: "label d = ''test''" "err d = None" "0 \<le> durationMs d"
    "\<forall>s2. methodsOf (Pino (AtLeast Info) []) Info d (Some (''test'' @ '' completed'')) [] = (None, s2)
        \<longrightarrow> measureDuration ''test'' returnsResult (methodsOf (Pino (AtLeast Info) [])) tickingClock []
              = (Inr ''result'', s2)"
    by blast
  have 1: "\<exists>d. measureDuration ''test'' returnsResult (methodsOf (Pino (AtLeast Info) [])) tickingClock []
          = (Inr ''result'', [PinoRecord Info [] d (Some ''test completed'')])
        \<and> label d = ''test'' \<and> err d = None \<and> 0 \<le> durationMs d"
    using d by (intro exI[of _ d]) (simp add: methodsOf_def)
  from measureDuration_observes[OF le, of throwsBoom "[]" "''test''" "methodsOf (Pino (AtLeast Info) [])"] b
  obtain d' where d': "label d' = ''test''" "err d' = Some (ErrorObj ''boom'' None)" "0 \<le> durationMs d'"
    "\<forall>s2. methodsOf (Pino (AtLeast Info) []) Error d' (Some (''test'' @ '' failed'')) [] = (None, s2)
        \<longrightarrow> measureDuration ''test'' throwsBoom (methodsOf (Pino (AtLeast Info) [])) tickingClock []
              = (Inl (ErrorObj ''boom'' None), s2)"
    by blast
  have 2: "\<exists>d. measureDuration ''test'' throwsBoom (methodsOf (Pino (AtLeast Info) [])) tickingClock []
          = (Inl (ErrorObj ''boom'' None), [PinoRecord Error [] d (Some ''test failed'')])
        \<and> label d = ''test'' \<and> err d = Some (ErrorObj ''boom'' None) \<and> 0 \<le> durationMs d"
    using d' by (intro exI[of _ d']) (simp add: methodsOf_def)
  show ?thesis using 1 2 by (rule conjI)
qed

text \<open>
  Claim C4 as stated fails in two ways. When \<^verbatim>\<open>log.info\<close> throws, the value that \<^verbatim>\<open>fn\<close>
  returned is lost: the \<^verbatim>\<open>catch\<close> block calls \<^verbatim>\<open>log.error\<close> with the logger's error, and
  \<^verbatim>\<open>measureDuration\<close> rejects with it. And a call of \<^verbatim>\<open>log.info\<close> is not a record: on the
  pino logger of a server with \<^verbatim>\<open>LOG_LEVEL=error\<close> the value is returned and nothing is
  written.
\<close>

theorem measureDuration_observes_counterexample:
  "fst (returnsResult ([] :: (level \<times> thrown option) list)) = Inr ''result''
   \<and> measureDuration ''test'' returnsResult brokenInfo tickingClock []
       = (Inl (ErrorObj ''logger failed'' None),
          [(Info, None), (Error, Some (ErrorObj ''logger failed'' None))])
   \<and> logger (loadModule (serverRuntime\<lparr>LOG_LEVEL := Some ''error''\<rparr>)) = Pino (AtLeast Error) []
   \<and> measureDuration ''test'' returnsResult (methodsOf (Pino (AtLeast Error) [])) tickingClock
        ([] :: duration_fields emitted list)
       = (Inr ''result'', [])"
  by (simp add: measureDuration_def logFailure_def returnsResult_def brokenInfo_def methodsOf_def
        loadModule_def createSimpleLogger_def levelOption_def pinoLevel_def serverRuntime_def Let_def)

subsection \<open>Calls that are not logged, and the transmission\<close>

lemma endpoint_not_logged:
  assumes "str_or (clientLogEndpoint cfg) None = Some endpoint"
  shows "\<not> shouldLog cfg endpoint"
proof -
  have "clientLogEndpoint cfg = Some endpoint"
    using assms by (cases "clientLogEndpoint cfg") (auto split: if_splits)
  then show ?thesis by (simp add: shouldLog_def includes_self)
qed

lemma logEvent_unlogged:
  assumes "\<not> shouldLog (globalConfig M) (url ev)"
  shows "logEvent M h ev w = (None, ev, w\<lparr>dispatched := dispatched w @ [ev]\<rparr>)"
  using assms by (simp add: logEvent.simps)

lemma url_successEventOf: "url (successEventOf input init rid stamp resp dur) = urlOf input"
  by (simp add: successEventOf_def)

lemma url_errorEventOf: "url (errorEventOf h input init rid stamp e dur) = urlOf input"
  by (simp add: errorEventOf_def)

text \<open>A call of the interceptor for a URL that is not logged: the original fetch, and two dropped events.\<close>

lemma interceptedFetch_unlogged:
  assumes "\<not> shouldLog (globalConfig M) (urlOf input)"
  shows "fst (interceptedFetch M h input init w) = originalFetch h (length (networkCalls w)) input init"
    and "networkCalls (snd (interceptedFetch M h input init w)) = networkCalls w @ [(input, init)]"
    and "loggerOut (snd (interceptedFetch M h input init w)) = loggerOut w"
    and "consoleLog (snd (interceptedFetch M h input init w)) = consoleLog w"
    and "consoleError (snd (interceptedFetch M h input init w)) = consoleError w"
    and "onErrorCalls (snd (interceptedFetch M h input init w)) = onErrorCalls w"
    and "fetchIntercepted (snd (interceptedFetch M h input init w)) = fetchIntercepted w"
    and "\<exists>a b. dispatched (snd (interceptedFetch M h input init w)) = dispatched w @ [a, b]
            \<and> url a = urlOf input \<and> url b = urlOf input"
  using assms
  by (cases "originalFetch h (length (networkCalls w)) input init";
      simp add: interceptedFetch.simps Let_def logEvent_unlogged url_startEventOf
        url_successEventOf url_errorEventOf callOriginalFetch_def)+

lemma globalFetch_unlogged:
  assumes "\<not> shouldLog (globalConfig M) (urlOf input)"
  shows "fst (globalFetch M h input init w) = originalFetch h (length (networkCalls w)) input init"
    and "networkCalls (snd (globalFetch M h input init w)) = networkCalls w @ [(input, init)]"
    and "loggerOut (snd (globalFetch M h input init w)) = loggerOut w"
    and "consoleLog (snd (globalFetch M h input init w)) = consoleLog w"
    and "consoleError (snd (globalFetch M h input init w)) = consoleError w"
    and "onErrorCalls (snd (globalFetch M h input init w)) = onErrorCalls w"
    and "fetchIntercepted (snd (globalFetch M h input init w)) = fetchIntercepted w"
    and "\<exists>ds. dispatched (snd (globalFetch M h input init w)) = dispatched w @ ds
            \<and> (\<forall>d \<in> set ds. url d = urlOf input)"
proof -
  show "fst (globalFetch M h input init w) = originalFetch h (length (networkCalls w)) input init"
    using interceptedFetch_unlogged(1)[OF assms] by (simp add: globalFetch_def callOriginalFetch_def)
  show "networkCalls (snd (globalFetch M h input init w)) = networkCalls w @ [(input, init)]"
    using interceptedFetch_unlogged(2)[OF assms] by (simp add: globalFetch_def callOriginalFetch_def)
  show "loggerOut (snd (globalFetch M h input init w)) = loggerOut w"
    using interceptedFetch_unlogged(3)[OF assms] by (simp add: globalFetch_def callOriginalFetch_def)
  show "consoleLog (snd (globalFetch M h input init w)) = consoleLog w"
    using interceptedFetch_unlogged(4)[OF assms] by (simp add: globalFetch_def callOriginalFetch_def)
  show "consoleError (snd (globalFetch M h input init w)) = consoleError w"
    using interceptedFetch_unlogged(5)[OF assms] by (simp add: globalFetch_def callOriginalFetch_def)
  show "onErrorCalls (snd (globalFetch M h input init w)) = onErrorCalls w"
    using interceptedFetch_unlogged(6)[OF assms] by (simp add: globalFetch_def callOriginalFetch_def)
  show "fetchIntercepted (snd (globalFetch M h input init w)) = fetchIntercepted w"
    using interceptedFetch_unlogged(7)[OF assms] by (simp add: globalFetch_def callOriginalFetch_def)
  show "\<exists>ds. dispatched (snd (globalFetch M h input init w)) = dispatched w @ ds
            \<and> (\<forall>d \<in> set ds. url d = urlOf input)"
  proof (cases "fetchIntercepted w")
    case True
    obtain a b where "dispatched (snd (interceptedFetch M h input init w)) = dispatched w @ [a, b]"
      "url a = urlOf input" "url b = urlOf input"
      using interceptedFetch_unlogged(8)[OF assms] by blast
    then have "dispatched (snd (globalFetch M h input init w)) = dispatched w @ [a, b]
                 \<and> (\<forall>d \<in> set [a, b]. url d = urlOf input)"
      using True by (simp add: globalFetch_def)
    then show ?thesis by blast
  next
    case False
    then have "dispatched (snd (globalFetch M h input init w)) = dispatched w @ []
                 \<and> (\<forall>d \<in> set []. url d = urlOf input)"
      by (simp add: globalFetch_def callOriginalFetch_def)
    then show ?thesis by blast
  qed
qed

lemma sendToServerAPI_idle:
  assumes "(if isClient M then str_or (clientLogEndpoint (globalConfig M)) None else None) = None"
  shows "sendToServerAPI M h ev w = (None, w)"
  using assms by (simp add: sendToServerAPI.simps)

lemma sendToServerAPI_unfold:
  assumes "isClient M" and "str_or (clientLogEndpoint (globalConfig M)) None = Some endpoint"
  shows "sendToServerAPI M h ev w =
           (case globalFetch M h (UrlString endpoint) (Some (logPostInit h ev)) w of
              (Inr resp, w1) \<Rightarrow> (None, w1)
            | (Inl e, w1) \<Rightarrow>
                (case onError (globalConfig M) of
                   Some callback \<Rightarrow>
                     (callback (asError h e), w1\<lparr>onErrorCalls := onErrorCalls w1 @ [asError h e]\<rparr>)
                 | None \<Rightarrow>
                     if isDev M
                     then (None, w1\<lparr>consoleError := consoleError w1 @ [(failureNotice, e)]\<rparr>)
                     else (None, w1)))"
  using assms by (simp add: sendToServerAPI.simps globalFetch_def)

lemma instanceofError_asError: "instanceofError (asError h e)"
  by (cases e) (simp_all add: asError_def)

lemma clientModule_simps:
  "isClient (clientModule cfg)" "\<not> isServer (clientModule cfg)" "isDev (clientModule cfg)"
  "globalConfig (clientModule cfg) = cfg" "logger (clientModule cfg) = ClientFallback True"
  by (simp_all add: clientModule_def moduleState_def loadModule_def clientRuntime_def Let_def)

subsection \<open>C9: a failed transmission stays inside \<open>sendToServerAPI\<close>\<close>

text \<open>
  Claim C9, as the code has it. On the client, with an endpoint configured, when the
  request that carries an event fails with \<open>e\<close>: if \<^verbatim>\<open>onError\<close> is set it is called once,
  with \<open>e\<close> made an \<^verbatim>\<open>Error\<close>, nothing is written to the console, and when the callback
  returns, \<open>sendToServerAPI\<close> returns normally; if it is not set the call returns
  normally, and in development one line is written to the console for this failure,
  outside development none. There is no memory of earlier failures: every failure in
  development writes its line.
\<close>

theorem transmission_failure_local:
  assumes "isClient M"
    and "str_or (clientLogEndpoint (globalConfig M)) None = Some endpoint"
    and "originalFetch h (length (networkCalls w)) (UrlString endpoint) (Some (logPostInit h ev)) = Inl e"
  shows "(case onError (globalConfig M) of
            Some callback \<Rightarrow>
              onErrorCalls (snd (sendToServerAPI M h ev w)) = onErrorCalls w @ [asError h e]
              \<and> instanceofError (asError h e)
              \<and> consoleError (snd (sendToServerAPI M h ev w)) = consoleError w
              \<and> (callback (asError h e) = None \<longrightarrow> fst (sendToServerAPI M h ev w) = None)
          | None \<Rightarrow>
              fst (sendToServerAPI M h ev w) = None
              \<and> onErrorCalls (snd (sendToServerAPI M h ev w)) = onErrorCalls w
              \<and> consoleError (snd (sendToServerAPI M h ev w))
                  = (if isDev M then consoleError w @ [(failureNotice, e)] else consoleError w))"
proof -
  let ?F = "globalFetch M h (UrlString endpoint) (Some (logPostInit h ev)) w"
  have nl: "\<not> shouldLog (globalConfig M) (urlOf (UrlString endpoint))"
    using endpoint_not_logged[OF assms(2)] by simp
  obtain r w1 where F: "?F = (r, w1)" by (cases ?F)
  have r: "r = Inl e" using globalFetch_unlogged(1)[OF nl, of h "Some (logPostInit h ev)" w] F assms(3) by simp
  have ce: "consoleError w1 = consoleError w"
    using globalFetch_unlogged(5)[OF nl, of h "Some (logPostInit h ev)" w] F by simp
  have oe: "onErrorCalls w1 = onErrorCalls w"
    using globalFetch_unlogged(6)[OF nl, of h "Some (logPostInit h ev)" w] F by simp
  show ?thesis
    by (cases "onError (globalConfig M)")
       (simp_all add: sendToServerAPI_unfold[OF assms(1,2)] F r ce oe instanceofError_asError)
qed

text \<open>
  The theorem in development with the network down, without \<^verbatim>\<open>onError\<close> and with an
  \<^verbatim>\<open>onError\<close> that returns.
\<close>

theorem transmission_failure_local_witness:
  "fst (sendToServerAPI (clientModule defaultConfig) (browser networkDown) (sampleEvent ''/x'') freshWorld) = None
   \<and> consoleError (snd (sendToServerAPI (clientModule defaultConfig) (browser networkDown) (sampleEvent ''/x'') freshWorld))
       = [(failureNotice, ErrorObj ''Network error'' None)]
   \<and> onErrorCalls (snd (sendToServerAPI (clientModule defaultConfig) (browser networkDown) (sampleEvent ''/x'') freshWorld)) = []
   \<and> fst (sendToServerAPI (clientModule (defaultConfig\<lparr>onError := Some acceptError\<rparr>))
             (browser networkDown) (sampleEvent ''/x'') freshWorld) = None
   \<and> onErrorCalls (snd (sendToServerAPI (clientModule (defaultConfig\<lparr>onError := Some acceptError\<rparr>))
             (browser networkDown) (sampleEvent ''/x'') freshWorld))
       = [ErrorObj ''Network error'' None]
   \<and> consoleError (snd (sendToServerAPI (clientModule (defaultConfig\<lparr>onError := Some acceptError\<rparr>))
             (browser networkDown) (sampleEvent ''/x'') freshWorld)) = []"
proof -
  let ?cfg = "defaultConfig\<lparr>onError := Some acceptError\<rparr>"
  have c: "isClient (clientModule defaultConfig)" by (rule clientModule_simps)
  have e: "str_or (clientLogEndpoint (globalConfig (clientModule defaultConfig))) None = Some ''/api/logs''"
    by (simp add: clientModule_simps defaultConfig_def)
  have f: "originalFetch (browser networkDown) (length (networkCalls freshWorld)) (UrlString ''/api/logs'')
             (Some (logPostInit (browser networkDown) (sampleEvent ''/x''))) = Inl (ErrorObj ''Network error'' None)"
    by (simp add: browser_def networkDown_def)
  have c': "isClient (clientModule ?cfg)" by (rule clientModule_simps)
  have e': "str_or (clientLogEndpoint (globalConfig (clientModule ?cfg))) None = Some ''/api/logs''"
    by (simp add: clientModule_simps defaultConfig_def)
  have a: "fst (sendToServerAPI (clientModule defaultConfig) (browser networkDown) (sampleEvent ''/x'') freshWorld) = None
   \<and> consoleError (snd (sendToServerAPI (clientModule defaultConfig) (browser networkDown) (sampleEvent ''/x'') freshWorld))
       = [(failureNotice, ErrorObj ''Network error'' None)]
   \<and> onErrorCalls (snd (sendToServerAPI (clientModule defaultConfig) (browser networkDown) (sampleEvent ''/x'') freshWorld)) = []"
    using transmission_failure_local[OF c e f]
    by (simp add: clientModule_simps defaultConfig_def freshWorld_def)
  have b: "fst (sendToServerAPI (clientModule ?cfg) (browser networkDown) (sampleEvent ''/x'') freshWorld) = None
   \<and> onErrorCalls (snd (sendToServerAPI (clientModule ?cfg) (browser networkDown) (sampleEvent ''/x'') freshWorld))
       = [ErrorObj ''Network error'' None]
   \<and> consoleError (snd (sendToServerAPI (clientModule ?cfg) (browser networkDown) (sampleEvent ''/x'') freshWorld)) = []"
    using transmission_failure_local[OF c' e' f]
    by (simp add: clientModule_simps acceptError_def asError_def freshWorld_def)
  show ?thesis using a b by simp
qed

text \<open>
  Claim C9 as stated fails twice. With the network down, a second failed transmission in
  the same session writes a second line: there is no limit of one warning per session.
  And an \<^verbatim>\<open>onError\<close> that throws is not contained: what it throws leaves
  \<open>sendToServerAPI\<close> and then \<open>logEvent\<close>.
\<close>

theorem transmission_failure_local_counterexample:
  "isDev (clientModule defaultConfig)
   \<and> onError (globalConfig (clientModule defaultConfig)) = None
   \<and> consoleError (snd (sendToServerAPI (clientModule defaultConfig) (browser networkDown) (sampleEvent ''/x'')
        (snd (sendToServerAPI (clientModule defaultConfig) (browser networkDown) (sampleEvent ''/x'') freshWorld))))
       = [(failureNotice, ErrorObj ''Network error'' None), (failureNotice, ErrorObj ''Network error'' None)]
   \<and> fst (sendToServerAPI (clientModule (defaultConfig\<lparr>onError := Some rethrowError\<rparr>))
             (browser networkDown) (sampleEvent ''/x'') freshWorld)
       = Some (ErrorObj ''Network error'' None)
   \<and> fst (logEvent (clientModule (defaultConfig\<lparr>onError := Some rethrowError\<rparr>))
             (browser networkDown) (sampleEvent ''/x'') freshWorld)
       = Some (ErrorObj ''Network error'' None)"
proof -
  let ?M = "clientModule defaultConfig"
  let ?h = "browser networkDown"
  have c: "isClient ?M" by (rule clientModule_simps)
  have e: "str_or (clientLogEndpoint (globalConfig ?M)) None = Some ''/api/logs''"
    by (simp add: clientModule_simps defaultConfig_def)
  have nl: "\<not> shouldLog (globalConfig ?M) (urlOf (UrlString ''/api/logs''))"
    using endpoint_not_logged[OF e] by simp
  have oe: "onError (globalConfig ?M) = None"
    by (simp add: clientModule_simps defaultConfig_def)
  have dev: "isDev ?M" by (rule clientModule_simps)
  have step: "\<And>w. consoleError (snd (sendToServerAPI ?M ?h (sampleEvent ''/x'') w))
                 = consoleError w @ [(failureNotice, ErrorObj ''Network error'' None)]"
  proof -
    fix w
    let ?F = "globalFetch ?M ?h (UrlString ''/api/logs'') (Some (logPostInit ?h (sampleEvent ''/x''))) w"
    obtain r w1 where F: "?F = (r, w1)" by (cases ?F)
    have r: "r = Inl (ErrorObj ''Network error'' None)"
      using globalFetch_unlogged(1)[OF nl, of ?h "Some (logPostInit ?h (sampleEvent ''/x''))" w] F
      by (simp add: browser_def networkDown_def)
    have ce: "consoleError w1 = consoleError w"
      using globalFetch_unlogged(5)[OF nl, of ?h "Some (logPostInit ?h (sampleEvent ''/x''))" w] F by simp
    show "consoleError (snd (sendToServerAPI ?M ?h (sampleEvent ''/x'') w))
            = consoleError w @ [(failureNotice, ErrorObj ''Network error'' None)]"
      by (simp add: sendToServerAPI_unfold[OF c e] F r ce oe dev)
  qed
  have twice: "consoleError (snd (sendToServerAPI ?M ?h (sampleEvent ''/x'')
        (snd (sendToServerAPI ?M ?h (sampleEvent ''/x'') freshWorld))))
       = [(failureNotice, ErrorObj ''Network error'' None), (failureNotice, ErrorObj ''Network error'' None)]"
    by (simp add: step freshWorld_def)
  have thrown: "fst (sendToServerAPI (clientModule (defaultConfig\<lparr>onError := Some rethrowError\<rparr>))
             ?h (sampleEvent ''/x'') freshWorld)
       = Some (ErrorObj ''Network error'' None)"
    by (simp add: sendToServerAPI.simps interceptedFetch.simps logEvent.simps Let_def
          clientModule_simps defaultConfig_def shouldLog_def rethrowError_def asError_def
          freshWorld_def browser_def networkDown_def startEventOf_def errorEventOf_def
          callOriginalFetch_def logPostInit_def methodOf_def truthyOpt_def generateRequestId_def)
  have up: "fst (logEvent (clientModule (defaultConfig\<lparr>onError := Some rethrowError\<rparr>))
             ?h (sampleEvent ''/x'') freshWorld)
       = Some (ErrorObj ''Network error'' None)"
    by (simp add: sendToServerAPI.simps interceptedFetch.simps logEvent.simps Let_def
          clientModule_simps defaultConfig_def shouldLog_def rethrowError_def asError_def
          freshWorld_def browser_def networkDown_def startEventOf_def errorEventOf_def
          sampleEvent_def successEventOf_def
          callOriginalFetch_def logPostInit_def methodOf_def truthyOpt_def generateRequestId_def)
  show ?thesis
    by (intro conjI) (rule dev oe twice thrown up)+
qed

subsection \<open>The interceptor when no callback throws\<close>

text \<open>
  When \<^verbatim>\<open>contextProvider\<close>, \<^verbatim>\<open>transformLog\<close> and \<^verbatim>\<open>onError\<close> return, \<^verbatim>\<open>logEvent\<close> returns, and
  the interceptor settles as the original \<^verbatim>\<open>fetch\<close> does, after handing over exactly a
  start event and the terminal event of that outcome, both with the identifier
  generated at entry.
\<close>

lemma sendToServerAPI_returns:
  assumes "callbacksReturn (globalConfig M)"
  shows "fst (sendToServerAPI M h ev w) = None"
proof (cases "if isClient M then str_or (clientLogEndpoint (globalConfig M)) None else None")
  case None
  then show ?thesis by (simp add: sendToServerAPI_idle)
next
  case (Some endpoint)
  then have c: "isClient M" and e: "str_or (clientLogEndpoint (globalConfig M)) None = Some endpoint"
    by (simp_all split: if_splits)
  have cb: "\<And>callback x. onError (globalConfig M) = Some callback \<Longrightarrow> callback x = None"
    using assms by (simp add: callbacksReturn_def)
  show ?thesis
    by (auto simp: sendToServerAPI_unfold[OF c e] cb split: prod.splits sum.splits option.splits)
qed

lemma logEvent_returns:
  assumes "callbacksReturn (globalConfig M)"
  shows "fst (logEvent M h ev w) = None"
proof -
  have p: "\<And>provider e. contextProvider (globalConfig M) = Some provider \<Longrightarrow> provider () \<noteq> Inl e"
    using assms by (auto simp: callbacksReturn_def split: sum.splits)
  have t: "\<And>t x e. transformLog (globalConfig M) = Some t \<Longrightarrow> t x \<noteq> Inl e"
  proof -
    fix t x e assume "transformLog (globalConfig M) = Some t"
    then have "case t x of Inl e \<Rightarrow> False | Inr fin \<Rightarrow> True"
      using assms by (simp add: callbacksReturn_def)
    then show "t x \<noteq> Inl e" by (auto split: sum.splits)
  qed
  show ?thesis
    using p t
    by (auto simp: logEvent.simps Let_def case_prod_beta sendToServerAPI_returns[OF assms]
          split: sum.splits option.splits)
qed

lemma sendToServerAPI_dispatched:
  "\<exists>ds. dispatched (snd (sendToServerAPI M h ev w)) = dispatched w @ ds
        \<and> (\<forall>d \<in> set ds. \<not> shouldLog (globalConfig M) (url d))"
proof (cases "if isClient M then str_or (clientLogEndpoint (globalConfig M)) None else None")
  case None
  then have "dispatched (snd (sendToServerAPI M h ev w)) = dispatched w @ []
               \<and> (\<forall>d \<in> set []. \<not> shouldLog (globalConfig M) (url d))"
    by (simp add: sendToServerAPI_idle)
  then show ?thesis by blast
next
  case (Some endpoint)
  then have c: "isClient M" and e: "str_or (clientLogEndpoint (globalConfig M)) None = Some endpoint"
    by (simp_all split: if_splits)
  let ?F = "globalFetch M h (UrlString endpoint) (Some (logPostInit h ev)) w"
  have nl: "\<not> shouldLog (globalConfig M) (urlOf (UrlString endpoint))"
    using endpoint_not_logged[OF e] by simp
  obtain r w1 where F: "?F = (r, w1)" by (cases ?F)
  obtain ds where ds: "dispatched w1 = dispatched w @ ds" "\<forall>d \<in> set ds. url d = endpoint"
    using globalFetch_unlogged(8)[OF nl, of h "Some (logPostInit h ev)" w] F by auto
  have "dispatched (snd (sendToServerAPI M h ev w)) = dispatched w1"
    by (simp add: sendToServerAPI_unfold[OF c e] F split: sum.splits option.splits)
  then have "dispatched (snd (sendToServerAPI M h ev w)) = dispatched w @ ds
               \<and> (\<forall>d \<in> set ds. \<not> shouldLog (globalConfig M) (url d))"
    using ds nl by simp
  then show ?thesis by blast
qed

lemma logEvent_dispatched:
  "\<exists>ds. dispatched (snd (snd (logEvent M h ev w))) = dispatched w @ ev # ds
        \<and> (\<forall>d \<in> set ds. shouldLog (globalConfig M) (url ev) \<and> \<not> shouldLog (globalConfig M) (url d))"
proof (cases "shouldLog (globalConfig M) (url ev)")
  case False
  then have "dispatched (snd (snd (logEvent M h ev w))) = dispatched w @ ev # []
               \<and> (\<forall>d \<in> set []. shouldLog (globalConfig M) (url ev) \<and> \<not> shouldLog (globalConfig M) (url d))"
    by (simp add: logEvent_unlogged)
  then show ?thesis by blast
next
  case True
  let ?w = "w\<lparr>dispatched := dispatched w @ [ev]\<rparr>"
  have idle: "\<And>fin (w' :: world). dispatched w' = dispatched ?w \<Longrightarrow>
          \<exists>ds. dispatched (snd (sendToServerAPI M h fin w')) = dispatched w @ ev # ds
            \<and> (\<forall>d \<in> set ds. \<not> shouldLog (globalConfig M) (url d))"
  proof -
    fix fin and w' :: world assume eq: "dispatched w' = dispatched ?w"
    obtain ds where "dispatched (snd (sendToServerAPI M h fin w')) = dispatched w' @ ds"
      "\<forall>d \<in> set ds. \<not> shouldLog (globalConfig M) (url d)"
      using sendToServerAPI_dispatched[of M h fin w'] by blast
    then have "dispatched (snd (sendToServerAPI M h fin w')) = dispatched w @ ev # ds
            \<and> (\<forall>d \<in> set ds. \<not> shouldLog (globalConfig M) (url d))"
      using eq by simp
    then show "\<exists>ds. dispatched (snd (sendToServerAPI M h fin w')) = dispatched w @ ev # ds
            \<and> (\<forall>d \<in> set ds. \<not> shouldLog (globalConfig M) (url d))" by blast
  qed
  have none: "dispatched ?w = dispatched w @ ev # []
                \<and> (\<forall>d \<in> set []. \<not> shouldLog (globalConfig M) (url d))" by simp
  have "\<exists>ds. dispatched (snd (snd (logEvent M h ev w))) = dispatched w @ ev # ds
          \<and> (\<forall>d \<in> set ds. \<not> shouldLog (globalConfig M) (url d))"
    using True none idle
    by (auto simp: logEvent.simps Let_def case_prod_beta split: sum.splits option.splits)
  then show ?thesis using True by blast
qed


lemma own_filter:
  assumes "url a = u" and "url b = u"
    and "\<forall>d \<in> set ds1. shouldLog cfg (url a) \<and> \<not> shouldLog cfg (url d)"
    and "\<forall>d \<in> set ds2. shouldLog cfg (url b) \<and> \<not> shouldLog cfg (url d)"
  shows "filter (\<lambda>d. url d = u) (a # ds1 @ b # ds2) = [a, b]"
proof -
  have 1: "filter (\<lambda>d. url d = u) ds1 = []"
    using assms(1,3) by (auto simp: filter_empty_conv)
  have 2: "filter (\<lambda>d. url d = u) ds2 = []"
    using assms(2,4) by (auto simp: filter_empty_conv)
  show ?thesis using assms(1,2) 1 2 by simp
qed

lemma interceptedFetch_quiet:
  assumes ok: "callbacksReturn (globalConfig M)"
  shows "(\<exists>n. fst (interceptedFetch M h input init w) = originalFetch h n input init)
         \<and> map event (ownEvents input w (snd (interceptedFetch M h input init w)))
             = [request_start, terminalOf (fst (interceptedFetch M h input init w))]
         \<and> (\<forall>d \<in> set (ownEvents input w (snd (interceptedFetch M h input init w))).
               requestId d = generateRequestId h (readings w))"
proof -
  let ?cfg = "globalConfig M"
  let ?rid = "generateRequestId h (readings w)"
  let ?t0 = "performanceNow h (readings w + 1)"
  let ?start = "startEventOf ?cfg h input init ?rid (toISOString h (readings w + 2))"
  let ?w0 = "w\<lparr>readings := readings w + 3\<rparr>"
  obtain r1 e1 w1 where L1: "logEvent M h ?start ?w0 = (r1, e1, w1)"
    by (cases "logEvent M h ?start ?w0")
  have r1: "r1 = None" using logEvent_returns[OF ok, of h ?start ?w0] L1 by simp
  obtain ds1 where d1: "dispatched w1 = dispatched w @ ?start # ds1"
    and n1: "\<forall>d \<in> set ds1. shouldLog ?cfg (url ?start) \<and> \<not> shouldLog ?cfg (url d)"
    using logEvent_dispatched[of M h ?start ?w0] L1 by auto
  define outcome where "outcome = fst (callOriginalFetch h input init w1)"
  define w2 where "w2 = snd (callOriginalFetch h input init w1)"
  have call: "callOriginalFetch h input init w1 = (outcome, w2)"
    by (simp add: outcome_def w2_def)
  have out: "outcome = originalFetch h (length (networkCalls w1)) input init"
    by (simp add: outcome_def callOriginalFetch_def)
  have d2: "dispatched w2 = dispatched w1" by (simp add: w2_def callOriginalFetch_def)
  have us: "url ?start = urlOf input" by (rule url_startEventOf)
  have rs: "requestId ?start = ?rid" "event ?start = request_start"
    by (simp_all add: startEventOf_def Let_def)
  show ?thesis
  proof (cases outcome)
    case (Inr resp)
    let ?closing = "successEventOf input init ?rid (toISOString h (readings w2 + 1)) resp
                   (round (performanceNow h (readings w2) - ?t0))"
    let ?w2' = "w2\<lparr>readings := readings w2 + 2\<rparr>"
    obtain r2 e2 w3 where L2: "logEvent M h ?closing ?w2' = (r2, e2, w3)"
      by (cases "logEvent M h ?closing ?w2'")
    have r2: "r2 = None" using logEvent_returns[OF ok, of h ?closing ?w2'] L2 by simp
    obtain ds2 where d3: "dispatched w3 = dispatched w2 @ ?closing # ds2"
      and n2: "\<forall>d \<in> set ds2. shouldLog ?cfg (url ?closing) \<and> \<not> shouldLog ?cfg (url d)"
      using logEvent_dispatched[of M h ?closing ?w2'] L2 by auto
    have res: "interceptedFetch M h input init w = (Inr resp, w3)"
      by (subst interceptedFetch.simps)
         (simp only: Let_def L1 r1 call Inr L2 r2 prod.case option.case sum.case)
    have ut: "url ?closing = urlOf input" by (rule url_successEventOf)
    have rt: "requestId ?closing = ?rid" "event ?closing = request_success"
      by (simp_all add: successEventOf_def)
    have own: "ownEvents input w w3 = [?start, ?closing]"
      unfolding ownEvents_def
      using own_filter[OF us ut n1 n2] by (simp add: d3 d2 d1)
    have o: "originalFetch h (length (networkCalls w1)) input init = Inr resp"
      using out Inr by simp
    have "\<exists>n. fst (interceptedFetch M h input init w) = originalFetch h n input init"
      using res o by (intro exI[of _ "length (networkCalls w1)"]) simp
    then show ?thesis
      using res own rs rt by (simp add: terminalOf_def)
  next
    case (Inl e)
    let ?closing = "errorEventOf h input init ?rid (toISOString h (readings w2 + 1)) e
                   (round (performanceNow h (readings w2) - ?t0))"
    let ?w2' = "w2\<lparr>readings := readings w2 + 2\<rparr>"
    obtain r2 e2 w3 where L2: "logEvent M h ?closing ?w2' = (r2, e2, w3)"
      by (cases "logEvent M h ?closing ?w2'")
    have r2: "r2 = None" using logEvent_returns[OF ok, of h ?closing ?w2'] L2 by simp
    obtain ds2 where d3: "dispatched w3 = dispatched w2 @ ?closing # ds2"
      and n2: "\<forall>d \<in> set ds2. shouldLog ?cfg (url ?closing) \<and> \<not> shouldLog ?cfg (url d)"
      using logEvent_dispatched[of M h ?closing ?w2'] L2 by auto
    have res: "interceptedFetch M h input init w = (Inl e, w3)"
      by (subst interceptedFetch.simps)
         (simp only: Let_def L1 r1 call Inl L2 r2 prod.case option.case sum.case)
    have ut: "url ?closing = urlOf input" by (rule url_errorEventOf)
    have rt: "requestId ?closing = ?rid" "event ?closing = request_error"
      by (simp_all add: errorEventOf_def)
    have own: "ownEvents input w w3 = [?start, ?closing]"
      unfolding ownEvents_def
      using own_filter[OF us ut n1 n2] by (simp add: d3 d2 d1)
    have o: "originalFetch h (length (networkCalls w1)) input init = Inl e"
      using out Inl by simp
    have "\<exists>n. fst (interceptedFetch M h input init w) = originalFetch h n input init"
      using res o by (intro exI[of _ "length (networkCalls w1)"]) simp
    then show ?thesis
      using res own rs rt by (simp add: terminalOf_def)
  qed
qed

subsection \<open>C1: a failure of the logging path reaches the caller of fetch\<close>

text \<open>
  Claim C1 fails on the code in three ways. At a \<^verbatim>\<open>contextProvider\<close> that throws, the
  network would answer the call with a response, but the interceptor rejects with the
  provider's error before the original \<^verbatim>\<open>fetch\<close> is called at all. At a \<^verbatim>\<open>transformLog\<close>
  that throws for success events, the original \<^verbatim>\<open>fetch\<close> is called and resolves, and the
  interceptor rejects with the transformer's error. At a \<^verbatim>\<open>transformLog\<close> that throws for
  error events, the original \<^verbatim>\<open>fetch\<close> rejects with a network error, and the interceptor
  rejects with the transformer's error in its place.
\<close>

theorem interceptor_alters_outcome:
  "originalFetch (browser networkUp) 0 (UrlString ''/x'') None = Inr okResponse
   \<and> fst (interceptedFetch (clientModule (defaultConfig\<lparr>contextProvider := Some throwingProvider\<rparr>))
            (browser networkUp) (UrlString ''/x'') None freshWorld)
       = Inl (ErrorObj ''provider failed'' None)
   \<and> networkCalls (snd (interceptedFetch (clientModule (defaultConfig\<lparr>contextProvider := Some throwingProvider\<rparr>))
            (browser networkUp) (UrlString ''/x'') None freshWorld)) = []
   \<and> originalFetch (browser networkUp) 1 (UrlString ''/x'') None = Inr okResponse
   \<and> fst (interceptedFetch (clientModule (defaultConfig\<lparr>transformLog := Some rejectSuccess\<rparr>))
            (browser networkUp) (UrlString ''/x'') None freshWorld)
       = Inl (ErrorObj ''transform failed'' None)
   \<and> map fst (networkCalls (snd (interceptedFetch (clientModule (defaultConfig\<lparr>transformLog := Some rejectSuccess\<rparr>))
            (browser networkUp) (UrlString ''/x'') None freshWorld)))
       = [UrlString ''/api/logs'', UrlString ''/x'', UrlString ''/api/logs'']
   \<and> originalFetch (browser networkDown) 1 (UrlString ''/x'') None = Inl (ErrorObj ''Network error'' None)
   \<and> fst (interceptedFetch (clientModule (defaultConfig\<lparr>transformLog := Some rejectError\<rparr>))
            (browser networkDown) (UrlString ''/x'') None freshWorld)
       = Inl (ErrorObj ''transform failed'' None)"
  by (simp add: interceptedFetch.simps logEvent.simps sendToServerAPI.simps Let_def
        clientModule_simps defaultConfig_def shouldLog_def rejectSuccess_def rejectError_def
        throwingProvider_def freshWorld_def browser_def networkUp_def networkDown_def
        startEventOf_def successEventOf_def errorEventOf_def callOriginalFetch_def
        logPostInit_def methodOf_def truthyOpt_def generateRequestId_def)

subsection \<open>C8: both terminal events for one call\<close>

text \<open>
  Claim C8 fails on the code at a \<^verbatim>\<open>transformLog\<close> that throws for success events: the
  original \<^verbatim>\<open>fetch\<close> resolves, the success event is handed to \<^verbatim>\<open>logEvent\<close>, its failure
  lands in the \<^verbatim>\<open>catch\<close> block, which hands over an error event too and rejects.
\<close>

theorem both_terminal_events:
  "originalFetch (browser networkUp) 1 (UrlString ''/x'') None = Inr okResponse
   \<and> map event (filter (\<lambda>d. url d = ''/x'')
        (dispatched (snd (interceptedFetch (clientModule (defaultConfig\<lparr>transformLog := Some rejectSuccess\<rparr>))
            (browser networkUp) (UrlString ''/x'') None freshWorld))))
       = [request_start, request_success, request_error]
   \<and> fst (interceptedFetch (clientModule (defaultConfig\<lparr>transformLog := Some rejectSuccess\<rparr>))
            (browser networkUp) (UrlString ''/x'') None freshWorld)
       = Inl (ErrorObj ''transform failed'' None)"
  by (simp add: interceptedFetch.simps logEvent.simps sendToServerAPI.simps Let_def
        clientModule_simps defaultConfig_def shouldLog_def rejectSuccess_def freshWorld_def
        browser_def networkUp_def startEventOf_def successEventOf_def errorEventOf_def
        callOriginalFetch_def logPostInit_def methodOf_def truthyOpt_def generateRequestId_def)

subsection \<open>C2: the environment is classified once, at load\<close>











subsection \<open>C10: dispatch assigns \<^verbatim>\<open>event.context\<close> in place\<close>

lemma map_of_rev_distinct: "distinct (map fst xs) \<Longrightarrow> map_of (rev xs) = map_of xs"
  by (rule map_of_inject_set[THEN iffD2]) (simp_all add: rev_map[symmetric])

text \<open>
  Claim C10, as the code has it. The caller's event object after \<^verbatim>\<open>logEvent\<close> is the
  object before it, except when the event passes \<open>shouldLog\<close>, a \<^verbatim>\<open>contextProvider\<close> is
  configured and it returns: then \<^verbatim>\<open>context\<close>, and nothing else, is replaced by the old
  context with the provider's object spread over it, the provider's value standing for
  every key it has. \<^verbatim>\<open>transformLog\<close> is applied to the object so changed: on the server
  its result is what the logger receives.
\<close>

theorem dispatch_context_frame:
  "fst (snd (logEvent M h ev w))
     = (if shouldLog (globalConfig M) (url ev)
        then (case contextProvider (globalConfig M) of
                None \<Rightarrow> ev
              | Some provider \<Rightarrow>
                  (case provider () of
                     Inl e \<Rightarrow> ev
                   | Inr extra \<Rightarrow>
                       ev\<lparr>eventContext :=
                            Some (spread (case eventContext ev of None \<Rightarrow> [] | Some c \<Rightarrow> c) extra)\<rparr>))
        else ev)
   \<and> (\<forall>c extra k. distinct (map fst extra) \<longrightarrow>
         map_of (spread c extra) k = (case map_of extra k of Some v \<Rightarrow> Some v | None \<Rightarrow> map_of c k))
   \<and> (\<forall>provider extra t fin.
         isServer M \<and> shouldLog (globalConfig M) (url ev)
         \<and> contextProvider (globalConfig M) = Some provider \<and> provider () = Inr extra
         \<and> transformLog (globalConfig M) = Some t
         \<and> t (ev\<lparr>eventContext :=
                   Some (spread (case eventContext ev of None \<Rightarrow> [] | Some c \<Rightarrow> c) extra)\<rparr>) = Inr fin
         \<longrightarrow> loggerOut (snd (snd (logEvent M h ev w)))
               = logCall (logger M) (if event fin = request_error then Error else Info) fin None
                   (loggerOut w))"
proof -
  have 1: "fst (snd (logEvent M h ev w))
     = (if shouldLog (globalConfig M) (url ev)
        then (case contextProvider (globalConfig M) of
                None \<Rightarrow> ev
              | Some provider \<Rightarrow>
                  (case provider () of
                     Inl e \<Rightarrow> ev
                   | Inr extra \<Rightarrow>
                       ev\<lparr>eventContext :=
                            Some (spread (case eventContext ev of None \<Rightarrow> [] | Some c \<Rightarrow> c) extra)\<rparr>))
        else ev)"
    by (simp add: logEvent.simps Let_def case_prod_beta split: sum.splits option.splits)
  have 2: "\<forall>c extra k. distinct (map fst extra) \<longrightarrow>
         map_of (spread c extra) k = (case map_of extra k of Some v \<Rightarrow> Some v | None \<Rightarrow> map_of c k)"
    by (simp add: map_of_spread map_of_rev_distinct map_add_def split: option.splits)
  have 3: "\<forall>provider extra t fin.
         isServer M \<and> shouldLog (globalConfig M) (url ev)
         \<and> contextProvider (globalConfig M) = Some provider \<and> provider () = Inr extra
         \<and> transformLog (globalConfig M) = Some t
         \<and> t (ev\<lparr>eventContext :=
                   Some (spread (case eventContext ev of None \<Rightarrow> [] | Some c \<Rightarrow> c) extra)\<rparr>) = Inr fin
         \<longrightarrow> loggerOut (snd (snd (logEvent M h ev w)))
               = logCall (logger M) (if event fin = request_error then Error else Info) fin None
                   (loggerOut w)"
    by (simp add: logEvent.simps Let_def)
  show ?thesis using 1 2 3 by blast
qed

text \<open>
  The theorem for a logged event whose context collides with the provider's on
  \<^verbatim>\<open>userId\<close>, and for a module without provider.
\<close>

theorem dispatch_context_frame_witness:
  "eventContext (fst (snd (logEvent (clientModule (defaultConfig\<lparr>contextProvider := Some userProvider\<rparr>))
      (browser networkUp) ((sampleEvent ''/x'')\<lparr>eventContext := Some [(''userId'', JStr ''u0''), (''page'', JStr ''home'')]\<rparr>) freshWorld)))
     = Some [(''userId'', JStr ''u1''), (''page'', JStr ''home'')]
   \<and> fst (snd (logEvent (clientModule defaultConfig) (browser networkUp) (sampleEvent ''/x'') freshWorld))
     = sampleEvent ''/x''"
proof -
  have u: "url (sampleEvent ''/x'') = ''/x''" by (simp add: sampleEvent_def successEventOf_def)
  have sl: "\<And>cfg. enabled cfg \<Longrightarrow> clientLogEndpoint cfg = Some ''/api/logs'' \<Longrightarrow> excludeUrls cfg = Some []
             \<Longrightarrow> shouldLog cfg ''/x''"
    by (simp add: shouldLog_def)
  have a: "shouldLog (globalConfig (clientModule (defaultConfig\<lparr>contextProvider := Some userProvider\<rparr>))) ''/x''"
    by (rule sl) (simp_all add: clientModule_simps defaultConfig_def)
  have b: "shouldLog (globalConfig (clientModule defaultConfig)) ''/x''"
    by (rule sl) (simp_all add: clientModule_simps defaultConfig_def)
  show ?thesis
    using dispatch_context_frame[of "clientModule (defaultConfig\<lparr>contextProvider := Some userProvider\<rparr>)"
            "browser networkUp"
            "(sampleEvent ''/x'')\<lparr>eventContext := Some [(''userId'', JStr ''u0''), (''page'', JStr ''home'')]\<rparr>"
            freshWorld, THEN conjunct1]
          dispatch_context_frame[of "clientModule defaultConfig" "browser networkUp" "sampleEvent ''/x''"
            freshWorld, THEN conjunct1]
          a b
    by (simp add: u clientModule_simps defaultConfig_def userProvider_def spread_def)
qed

text \<open>
  Claim C10 as stated (a configured provider always changes the event) fails for an
  event that \<open>shouldLog\<close> drops: \<^verbatim>\<open>logEvent\<close> returns before it calls the provider.
\<close>

theorem dispatch_context_frame_counterexample:
  "contextProvider (globalConfig (clientModule (defaultConfig\<lparr>contextProvider := Some userProvider\<rparr>)))
     = Some userProvider
   \<and> userProvider () = Inr [(''userId'', JStr ''u1'')]
   \<and> eventContext (sampleEvent ''/api/logs/health'') = None
   \<and> fst (snd (logEvent (clientModule (defaultConfig\<lparr>contextProvider := Some userProvider\<rparr>))
        (browser networkUp) (sampleEvent ''/api/logs/health'') freshWorld))
       = sampleEvent ''/api/logs/health''"
  by (simp add: logEvent.simps Let_def clientModule_simps defaultConfig_def shouldLog_def
        userProvider_def sampleEvent_def successEventOf_def)

end
